theory Spec2Isabelle
  imports Complex_Main "HOL-Library.Multiset"
begin

section \<open>Python strings\<close>

text \<open>
  A Python \<open>str\<close> is a sequence of code points. The model keeps the code points
  below 256 (type \<open>char\<close>), which covers every literal of \<open>script_books.py\<close>:
  the pound sign of the price pattern is code point 163.
\<close>

definition pound :: char where
  "pound = CHR 0xA3"

text \<open>\<open>str.isspace\<close> on one code point below 256.\<close>

definition py_isspace :: "char \<Rightarrow> bool" where
  "py_isspace c =
     (let n = (of_char c :: nat)
      in (9 \<le> n \<and> n \<le> 13) \<or> (28 \<le> n \<and> n \<le> 32) \<or> n = 133 \<or> n = 160)"

text \<open>The class \<open>\d\<close> of \<open>re\<close>, and the decimal digits \<open>int\<close> and \<open>float\<close> read.\<close>

definition py_isdigit :: "char \<Rightarrow> bool" where
  "py_isdigit c = (let n = (of_char c :: nat) in 48 \<le> n \<and> n \<le> 57)"

definition digit_val :: "char \<Rightarrow> nat" where
  "digit_val c = (of_char c :: nat) - 48"

definition digits_val :: "string \<Rightarrow> nat" where
  "digits_val ds = foldl (\<lambda>a c. 10 * a + digit_val c) 0 ds"

text \<open>\<open>s.strip()\<close>: whitespace removed at both ends.\<close>

definition strip :: "string \<Rightarrow> string" where
  "strip s = rev (dropWhile py_isspace (rev (dropWhile py_isspace s)))"


text \<open>\<open>s.lower()\<close>: the upper-case letters below 256 are A-Z and 192-222 without 215.\<close>

definition lower_char :: "char \<Rightarrow> char" where
  "lower_char c =
     (let n = (of_char c :: nat)
      in if (65 \<le> n \<and> n \<le> 90) \<or> (192 \<le> n \<and> n \<le> 222 \<and> n \<noteq> 215)
         then char_of (n + 32) else c)"

definition lower :: "string \<Rightarrow> string" where
  "lower s = map lower_char s"

text \<open>\<open>s.startswith(p)\<close> and the substring test \<open>sub in s\<close>.\<close>

fun startswith :: "string \<Rightarrow> string \<Rightarrow> bool" where
  "startswith s [] = True"
| "startswith [] (p # ps) = False"
| "startswith (c # cs) (p # ps) = (c = p \<and> startswith cs ps)"

fun py_in :: "string \<Rightarrow> string \<Rightarrow> bool" where
  "py_in sub [] = (sub = [])"
| "py_in sub (c # cs) = (startswith (c # cs) sub \<or> py_in sub cs)"

text \<open>The slice \<open>s[:n]\<close>.\<close>

definition slice_to :: "nat \<Rightarrow> string \<Rightarrow> string" where
  "slice_to n s = take n s"

section \<open>Errors\<close>

text \<open>
  The exceptions the script can meet. Every handler of the script is
  \<open>except Exception\<close>, so a handler never tells them apart.
\<close>

datatype error =
    ValueError
  | IndexError
  | UnboundLocalError
  | KeyError
  | AttributeError
  | ConnectionError
  | HTTPError
  | DataError
  | IntegrityError

section \<open>The random module\<close>

text \<open>
  The generator is an infinite sequence of raw draws; every call of the module takes
  the draws it needs from the front. \<open>randbelow n\<close> reduces a raw draw to \<open>[0, n)\<close>.
  What the theorems below prove holds for every sequence; the distribution of the draws
  is not part of the model.
\<close>

type_synonym rng = "nat \<Rightarrow> nat"

definition rng_next :: "rng \<Rightarrow> rng" where
  "rng_next g = (\<lambda>i. g (Suc i))"

definition randbelow :: "nat \<Rightarrow> rng \<Rightarrow> nat" where
  "randbelow n g = g 0 mod n"

text \<open>\<open>random.randint(a, b)\<close>: \<open>ValueError\<close> on an empty range.\<close>

definition randint :: "int \<Rightarrow> int \<Rightarrow> rng \<Rightarrow> (error + int) \<times> rng" where
  "randint a b g =
     (if b < a then (Inl ValueError, g)
      else (Inr (a + int (randbelow (nat (b - a + 1)) g)), rng_next g))"

text \<open>\<open>random.choice(seq)\<close>: \<open>IndexError\<close> on an empty sequence.\<close>

definition choice :: "'a list \<Rightarrow> rng \<Rightarrow> (error + 'a) \<times> rng" where
  "choice xs g =
     (if xs = [] then (Inl IndexError, g)
      else (Inr (xs ! randbelow (length xs) g), rng_next g))"

text \<open>
  \<open>random.sample(population, k)\<close>, the pool algorithm: the element at a random index
  is selected and the last element of the pool moves into its place. (For a population of
  more than 21 elements the library selects indices by rejection instead; either way the
  result is \<open>k\<close> elements at pairwise different positions.)
\<close>

fun sample_pool :: "'a list \<Rightarrow> nat \<Rightarrow> rng \<Rightarrow> 'a list \<times> rng" where
  "sample_pool pool 0 g = ([], g)"
| "sample_pool pool (Suc k) g =
     (let j = randbelow (length pool) g;
          (rest, g') = sample_pool (butlast (pool[j := last pool])) k (rng_next g)
      in (pool ! j # rest, g'))"

definition sample :: "'a list \<Rightarrow> int \<Rightarrow> rng \<Rightarrow> (error + 'a list) \<times> rng" where
  "sample population k g =
     (if k < 0 \<or> int (length population) < k then (Inl ValueError, g)
      else (case sample_pool population (nat k) g of (sel, g') \<Rightarrow> (Inr sel, g')))"

text \<open>
  \<open>random.random() < 0.3\<close>: the float drawn is a raw draw reduced to hundredths.
\<close>

definition random_below_03 :: "rng \<Rightarrow> bool \<times> rng" where
  "random_below_03 g = (randbelow 100 g < 30, rng_next g)"

section \<open>Star rating\<close>

definition rating_map :: "(string \<times> int) list" where
  "rating_map = [(''One'', 1), (''Two'', 2), (''Three'', 3), (''Four'', 4), (''Five'', 5)]"

fun rating_items_loop :: "(string \<times> int) list \<Rightarrow> string \<Rightarrow> int option" where
  "rating_items_loop [] rating_class = None"
| "rating_items_loop ((word, num) # items) rating_class =
     (if py_in word rating_class then Some num else rating_items_loop items rating_class)"

definition extract_rating_from_class :: "string \<Rightarrow> int option" where
  "extract_rating_from_class rating_class = rating_items_loop rating_map rating_class"

text \<open>
  Lines 274-281 of \<open>extract_book_details\<close>: the argument is the class list of the
  \<open>star-rating\<close> paragraph, \<open>None\<close> when the container has no such paragraph.
\<close>

fun rating_classes_loop :: "string list \<Rightarrow> int option" where
  "rating_classes_loop [] = None"
| "rating_classes_loop (cls # rest) =
     (if cls \<in> set [''One'', ''Two'', ''Three'', ''Four'', ''Five'']
      then extract_rating_from_class cls
      else rating_classes_loop rest)"

definition book_rating :: "string list option \<Rightarrow> int option" where
  "book_rating rating_element =
     (case rating_element of
        None \<Rightarrow> None
      | Some rating_classes \<Rightarrow> rating_classes_loop rating_classes)"

section \<open>Prices\<close>

text \<open>
  A Python \<open>float\<close>. \<open>Finite q\<close> stands for the double nearest to the rational \<open>q\<close>:
  \<open>float\<close> reads a decimal numeral exactly and rounds once, as the compiler does for a
  literal such as \<open>51.77\<close>, so the numeral's exact value identifies the double.
\<close>

datatype pyfloat = Finite rat | PosInf | NegInf | NaN

text \<open>Underscores are allowed between digits only.\<close>

fun underscores_ok :: "char option \<Rightarrow> string \<Rightarrow> bool" where
  "underscores_ok prev [] = (prev \<noteq> Some CHR ''_'')"
| "underscores_ok prev (c # cs) =
     (if c = CHR ''_''
      then (case prev of None \<Rightarrow> False | Some p \<Rightarrow> py_isdigit p) \<and> underscores_ok (Some c) cs
      else (if prev = Some CHR ''_'' then py_isdigit c else True) \<and> underscores_ok (Some c) cs)"

definition split_sign :: "string \<Rightarrow> bool \<times> string" where
  "split_sign s =
     (case s of
        [] \<Rightarrow> (False, [])
      | c # cs \<Rightarrow>
          if c = CHR ''-'' then (True, cs)
          else if c = CHR ''+'' then (False, cs)
          else (False, s))"

definition parse_exponent :: "string \<Rightarrow> int option" where
  "parse_exponent s =
     (case s of
        [] \<Rightarrow> Some 0
      | c # cs \<Rightarrow>
          if c = CHR ''e'' \<or> c = CHR ''E''
          then (case split_sign cs of
                  (neg, ds) \<Rightarrow>
                    if ds \<noteq> [] \<and> list_all py_isdigit ds
                    then Some (if neg then - int (digits_val ds) else int (digits_val ds))
                    else None)
          else None)"

definition scale10 :: "nat \<Rightarrow> int \<Rightarrow> rat" where
  "scale10 m k = (if 0 \<le> k then of_nat m * 10 ^ nat k else of_nat m / 10 ^ nat (- k))"

definition parse_decimal :: "string \<Rightarrow> rat option" where
  "parse_decimal s =
     (let ip = takeWhile py_isdigit s;
          r1 = dropWhile py_isdigit s;
          pt = (r1 \<noteq> [] \<and> hd r1 = CHR ''.'');
          fp = (if pt then takeWhile py_isdigit (tl r1) else []);
          r2 = (if pt then dropWhile py_isdigit (tl r1) else r1)
      in if ip = [] \<and> fp = [] then None
         else (case parse_exponent r2 of
                 None \<Rightarrow> None
               | Some e \<Rightarrow> Some (scale10 (digits_val (ip @ fp)) (e - int (length fp)))))"

text \<open>\<open>float(s)\<close> for a string \<open>s\<close>.\<close>

definition py_float :: "string \<Rightarrow> error + pyfloat" where
  "py_float s =
     (let t = strip s
      in if \<not> underscores_ok None t then Inl ValueError
         else (case split_sign (filter (\<lambda>c. c \<noteq> CHR ''_'') t) of
                 (neg, body) \<Rightarrow>
                   (case parse_decimal body of
                      Some q \<Rightarrow> Inr (Finite (if neg then - q else q))
                    | None \<Rightarrow>
                        if lower body = ''inf'' \<or> lower body = ''infinity''
                        then Inr (if neg then NegInf else PosInf)
                        else if lower body = ''nan'' then Inr NaN
                        else Inl ValueError)))"

text \<open>The substitution \<open>re.sub('[\<pounds>,]', '', price_text)\<close> of line 267.\<close>

definition sub_pound_comma :: "string \<Rightarrow> string" where
  "sub_pound_comma price_text = filter (\<lambda>c. c \<noteq> pound \<and> c \<noteq> CHR '','') price_text"

text \<open>
  Lines 265-267: the argument is the text of the \<open>price_color\<close> paragraph, \<open>None\<close>
  when the container has none.
\<close>

definition book_price :: "string option \<Rightarrow> error + pyfloat" where
  "book_price price_element =
     (let price_text = (case price_element of Some t \<Rightarrow> t | None \<Rightarrow> pound # ''0.00'')
      in py_float (sub_pound_comma price_text))"

section \<open>The two sites as the script reads them\<close>

text \<open>
  \<open>session.get\<close> either raises (\<open>NoResponse\<close>) or returns a response with its status code
  and its body. A body is kept as what the \<open>find\<close> and \<open>find_all\<close> calls of the script
  return on it; a URL is kept as \<open>urljoin\<close> resolves it.
\<close>

datatype 'a response = NoResponse | Response nat 'a

text \<open>\<open>response.raise_for_status()\<close> after a \<open>session.get\<close>.\<close>

definition raise_for_status :: "'a response \<Rightarrow> error + 'a" where
  "raise_for_status r =
     (case r of
        NoResponse \<Rightarrow> Inl ConnectionError
      | Response code body \<Rightarrow> if 400 \<le> code \<and> code < 600 then Inl HTTPError else Inr body)"

text \<open>A link: its \<open>title\<close> attribute and the URL its \<open>href\<close> resolves to.\<close>

record anchor =
  a_title :: "string option"
  a_url :: string

text \<open>
  An \<open>article.product_pod\<close>: \<open>h3\<close> is \<open>None\<close> without a heading, \<open>Some None\<close> for a
  heading without a link; \<open>image_container\<close> likewise for the \<open>div\<close> and its \<open>img\<close>
  (the URL its \<open>src\<close> resolves to); \<open>star_rating\<close> is the class list of the first
  paragraph with a \<open>star-rating\<close> class.
\<close>

record book_container =
  h3 :: "anchor option option"
  price_color :: "string option"
  instock :: "string option"
  star_rating :: "string list option"
  image_container :: "string option option"

text \<open>
  A book page: the text of the paragraph after \<open>div#product_description\<close>, the rows
  of the product table (text of the first \<open>th\<close> and of the first \<open>td\<close>), the texts of the
  breadcrumb's links.
\<close>

record detail_soup =
  product_description :: "string option option"
  product_table :: "(string option \<times> string option) list option"
  breadcrumb :: "string list option"

text \<open>A link of the navigation list, and a \<open>div.quote\<close>.\<close>

record nav_link =
  link_text :: string
  link_url :: string

record quote_container =
  small_author :: "string option"
  span_text :: "string option"
  tag_links :: "string list"

record site =
  home :: "nav_link list option response"
  listing :: "nat \<Rightarrow> book_container list response"
  detail :: "string \<Rightarrow> detail_soup response"
  quotes_page :: "nat \<Rightarrow> quote_container list response"

section \<open>Book pages\<close>

record details =
  d_description :: string
  d_upc :: string
  d_publication_year :: "int option"
  d_category :: string

text \<open>\<open>re.search('20\d{2}', value)\<close>: the leftmost match.\<close>

fun search_20dd :: "string \<Rightarrow> string option" where
  "search_20dd (a # b # c # d # rest) =
     (if a = CHR ''2'' \<and> b = CHR ''0'' \<and> py_isdigit c \<and> py_isdigit d
      then Some [a, b, c, d]
      else search_20dd (b # c # d # rest))"
| "search_20dd s = None"

text \<open>Lines 329-345: the loop over the rows of the product table.\<close>

fun table_rows_loop ::
  "(string option \<times> string option) list \<Rightarrow> details \<Rightarrow> rng \<Rightarrow> error option \<times> details \<times> rng" where
  "table_rows_loop [] d g = (None, d, g)"
| "table_rows_loop ((None, td) # rows) d g = table_rows_loop rows d g"
| "table_rows_loop ((Some th, None) # rows) d g = table_rows_loop rows d g"
| "table_rows_loop ((Some th, Some td) # rows) d g =
     (let key = lower (strip th); val = strip td
      in if py_in ''upc'' key then table_rows_loop rows (d\<lparr>d_upc := val\<rparr>) g
         else if py_in ''available'' key then
           (case search_20dd val of
              Some year_match \<Rightarrow>
                table_rows_loop rows
                  (d\<lparr>d_publication_year := Some (int (digits_val year_match))\<rparr>) g
            | None \<Rightarrow>
                (case randint 2000 2023 g of
                   (Inl e, g') \<Rightarrow> (Some e, d, g')
                 | (Inr y, g') \<Rightarrow>
                     table_rows_loop rows (d\<lparr>d_publication_year := Some y\<rparr>) g'))
         else table_rows_loop rows d g)"

definition initial_details :: details where
  "initial_details =
     \<lparr>d_description = [], d_upc = [], d_publication_year = None, d_category = []\<rparr>"

text \<open>Lines 313-354: the \<open>try\<close> block of \<open>get_book_page_details\<close>.\<close>

definition book_page_try :: "site \<Rightarrow> string \<Rightarrow> rng \<Rightarrow> error option \<times> details \<times> rng" where
  "book_page_try s book_url g =
     (case raise_for_status (detail s book_url) of
        Inl e \<Rightarrow> (Some e, initial_details, g)
      | Inr soup \<Rightarrow>
          (let d1 = (case product_description soup of
                       Some (Some desc_p) \<Rightarrow> initial_details\<lparr>d_description := strip desc_p\<rparr>
                     | _ \<Rightarrow> initial_details)
           in case (case product_table soup of
                      None \<Rightarrow> (None, d1, g)
                    | Some rows \<Rightarrow> table_rows_loop rows d1 g) of
                (Some e, d2, g') \<Rightarrow> (Some e, d2, g')
              | (None, d2, g') \<Rightarrow>
                  (case breadcrumb soup of
                     None \<Rightarrow> (None, d2, g')
                   | Some links \<Rightarrow>
                       if 3 \<le> length links
                       then (None, d2\<lparr>d_category := strip (links ! 2)\<rparr>, g')
                       else (None, d2, g'))))"

text \<open>
  \<open>get_book_page_details\<close>: the handler of lines 356-360 draws a year when the
  \<open>try\<close> block raised and the year is still falsy.
\<close>

definition get_book_page_details :: "site \<Rightarrow> string \<Rightarrow> rng \<Rightarrow> (error + details) \<times> rng" where
  "get_book_page_details s book_url g =
     (case book_page_try s book_url g of
        (None, d, g') \<Rightarrow> (Inr d, g')
      | (Some e, d, g') \<Rightarrow>
          if d_publication_year d = None \<or> d_publication_year d = Some 0
          then (case randint 2000 2023 g' of
                  (Inl e', g'') \<Rightarrow> (Inl e', g'')
                | (Inr y, g'') \<Rightarrow> (Inr (d\<lparr>d_publication_year := Some y\<rparr>), g''))
          else (Inr d, g'))"

section \<open>Book listing\<close>

record book =
  title :: string
  price :: pyfloat
  availability :: string
  rating :: "int option"
  image_url :: string
  url :: string
  description :: string
  upc :: string
  publication_year :: "int option"
  category :: string
  db_id :: "nat option"

text \<open>
  \<open>extract_book_details\<close>: \<open>None\<close> is the value returned by the handler of line 300.
  The key \<open>db_id\<close> is absent from the dictionary the function returns.
\<close>

definition extract_book_details :: "site \<Rightarrow> book_container \<Rightarrow> rng \<Rightarrow> book option \<times> rng" where
  "extract_book_details s book_container g =
     (case h3 book_container of
        None \<Rightarrow> (None, g)
      | Some None \<Rightarrow> (None, g)
      | Some (Some title_element) \<Rightarrow>
          (let title' = (case a_title title_element of Some t \<Rightarrow> t | None \<Rightarrow> []);
               book_url = a_url title_element
           in case book_price (price_color book_container) of
                Inl e \<Rightarrow> (None, g)
              | Inr price' \<Rightarrow>
                  (let availability' = (case instock book_container of
                                          Some t \<Rightarrow> strip t
                                        | None \<Rightarrow> ''Unknown'');
                       rating' = book_rating (star_rating book_container)
                   in case image_container book_container of
                        None \<Rightarrow> (None, g)
                      | Some img_element \<Rightarrow>
                          (let image_url' = (case img_element of Some u \<Rightarrow> u | None \<Rightarrow> [])
                           in case get_book_page_details s book_url g of
                                (Inl e, g') \<Rightarrow> (None, g')
                              | (Inr d, g') \<Rightarrow>
                                  (Some \<lparr>title = title', price = price',
                                         availability = availability', rating = rating',
                                         image_url = image_url', url = book_url,
                                         description = d_description d, upc = d_upc d,
                                         publication_year = d_publication_year d,
                                         category = d_category d, db_id = None\<rparr>, g')))))"

text \<open>Lines 235-238: the loop over the containers of one listing page.\<close>

fun containers_loop :: "site \<Rightarrow> book_container list \<Rightarrow> book list \<Rightarrow> rng \<Rightarrow> book list \<times> rng" where
  "containers_loop s [] books g = (books, g)"
| "containers_loop s (book_container # rest) books g =
     (case extract_book_details s book_container g of
        (None, g') \<Rightarrow> containers_loop s rest books g'
      | (Some book_data, g') \<Rightarrow> containers_loop s rest (books @ [book_data]) g')"

text \<open>
  Lines 215-250: the pagination loop of \<open>extract_books\<close>. Besides the books and the
  generator the loop state holds the listing pages requested so far, in order.
\<close>

function extract_books_loop ::
  "site \<Rightarrow> nat \<Rightarrow> book list \<times> rng \<times> nat list \<Rightarrow> book list \<times> rng \<times> nat list" where
  "extract_books_loop s page (books, g, requested) =
     (case listing s page of
        NoResponse \<Rightarrow> (books, g, requested @ [page])
      | Response code containers \<Rightarrow>
          if code = 404 then (books, g, requested @ [page])
          else if 400 \<le> code \<and> code < 600 then (books, g, requested @ [page])
          else if containers = [] then (books, g, requested @ [page])
          else (case containers_loop s containers books g of
                  (books', g') \<Rightarrow>
                    if page + 1 > 5 then (books', g', requested @ [page])
                    else extract_books_loop s (page + 1) (books', g', requested @ [page])))"
  by pat_completeness auto
termination
  by (relation "measure (\<lambda>(s, page, st). 6 - page)") auto

definition extract_books :: "site \<Rightarrow> book list \<times> rng \<Rightarrow> book list \<times> rng \<times> nat list" where
  "extract_books s st = extract_books_loop s 1 (fst st, snd st, [])"

section \<open>Categories\<close>

record category =
  c_name :: string
  c_url :: string

text \<open>
  \<open>re.sub('\s+\d+$', '', s)\<close>. The digits of a match are the digits that end the string
  and the leftmost match starts where the whitespace before them starts; \<open>$\<close> also
  matches before a newline that ends the string.
\<close>

definition ends_with_count :: "string \<Rightarrow> bool" where
  "ends_with_count s =
     (takeWhile py_isdigit (rev s) \<noteq> [] \<and>
      takeWhile py_isspace (dropWhile py_isdigit (rev s)) \<noteq> [])"

definition drop_count :: "string \<Rightarrow> string" where
  "drop_count s = rev (dropWhile py_isspace (dropWhile py_isdigit (rev s)))"

definition sub_trailing_count :: "string \<Rightarrow> string" where
  "sub_trailing_count s =
     (if ends_with_count s then drop_count s
      else if s \<noteq> [] \<and> last s = CHR 0x0A \<and> ends_with_count (butlast s)
      then drop_count (butlast s) @ [CHR 0x0A]
      else s)"

text \<open>Lines 185-194: the loop over the links of the navigation list.\<close>

fun category_links_loop :: "nav_link list \<Rightarrow> category list \<Rightarrow> category list" where
  "category_links_loop [] cats = cats"
| "category_links_loop (link # links) cats =
     (let category_name = strip (link_text link)
      in if category_name \<noteq> [] \<and> category_name \<noteq> ''Books''
         then (let clean_name = strip (sub_trailing_count category_name)
               in if clean_name \<notin> set (map c_name cats)
                  then category_links_loop links
                         (cats @ [\<lparr>c_name = clean_name, c_url = link_url link\<rparr>])
                  else category_links_loop links cats)
         else category_links_loop links cats)"

text \<open>
  \<open>extract_categories\<close>, from the categories collected so far (none when the pipeline
  calls it) to the categories collected after it.
\<close>

definition extract_categories :: "site \<Rightarrow> category list \<Rightarrow> category list" where
  "extract_categories s cats =
     (case raise_for_status (home s) of
        Inl e \<Rightarrow> cats
      | Inr None \<Rightarrow> cats
      | Inr (Some category_links) \<Rightarrow> category_links_loop category_links cats)"

section \<open>Quotes\<close>

text \<open>
  The dates of an author are \<open>None\<close> or the text \<open>YYYY-01-01\<close>; the model keeps the
  year.
\<close>

record author =
  au_name :: string
  birth_date :: "nat option"
  death_date :: "nat option"
  bio :: string
  openlibrary_key :: "string option"

record quote =
  q_text :: string
  q_author :: string
  q_tags :: "string list"
  q_book_source :: "string option"
  q_db_id :: "nat option"








section \<open>The database\<close>

text \<open>
  The eight tables of \<open>create_tables\<close>, each a list of rows in insertion order, a row
  being its \<open>id\<close> and its other columns (\<open>created_at\<close> is left out: nothing reads it).
  A column that the script can fill with \<open>None\<close> holds an option. The connection
  is up for the whole run: a statement fails only for the values it is given.
\<close>

record book_values =
  v_title :: string
  v_price :: pyfloat
  v_availability :: string
  v_description :: string
  v_rating :: "int option"
  v_image_url :: string
  v_upc :: string
  v_publication_year :: "int option"
  v_category_id :: "nat option"
  v_publisher_id :: nat

record quote_values =
  v_text :: string
  v_author_id :: "nat option"
  v_book_source :: "string option"

record database =
  categories_tbl :: "(nat \<times> string) list"
  publishers_tbl :: "(nat \<times> string) list"
  authors_tbl :: "(nat \<times> author) list"
  books_tbl :: "(nat \<times> book_values) list"
  book_authors_tbl :: "(nat \<times> nat \<times> nat) list"
  tags_tbl :: "(nat \<times> string) list"
  quotes_tbl :: "(nat \<times> quote_values) list"
  quote_tags_tbl :: "(nat \<times> nat \<times> nat) list"

text \<open>
  The sequences behind the \<open>SERIAL\<close> columns: the next value of each. The server
  advances a sequence outside of any transaction; a rollback does not take a value back.
\<close>

record sequences =
  categories_seq :: nat
  publishers_seq :: nat
  authors_seq :: nat
  books_seq :: nat
  book_authors_seq :: nat
  tags_seq :: nat
  quotes_seq :: nat
  quote_tags_seq :: nat

type_synonym server = "database \<times> sequences"

subsection \<open>Column types\<close>

text \<open>A text parameter: the driver refuses a string with a NUL character.\<close>

definition pg_text :: "string \<Rightarrow> string option" where
  "pg_text s = (if CHR 0x00 \<in> set s then None else Some s)"

text \<open>
  \<open>VARCHAR(n)\<close>: a longer string is an error unless the characters beyond \<open>n\<close> are all
  spaces, which are cut off.
\<close>

definition varchar :: "nat \<Rightarrow> string \<Rightarrow> string option" where
  "varchar n s =
     (if CHR 0x00 \<in> set s then None
      else if length s \<le> n then Some s
      else if list_all (\<lambda>c. c = CHR '' '') (drop n s) then Some (take n s)
      else None)"

text \<open>\<open>DECIMAL(10,2)\<close>: rounded half away from zero to two decimals, below \<open>10^8\<close>.\<close>

definition round2 :: "rat \<Rightarrow> rat" where
  "round2 q = (if 0 \<le> q then of_int \<lfloor>q * 100 + 1 / 2\<rfloor> / 100
               else - (of_int \<lfloor>- q * 100 + 1 / 2\<rfloor> / 100))"

definition decimal_10_2 :: "pyfloat \<Rightarrow> pyfloat option" where
  "decimal_10_2 x =
     (case x of
        Finite q \<Rightarrow> if \<bar>round2 q\<bar> < 10 ^ 8 then Some (Finite (round2 q)) else None
      | NaN \<Rightarrow> Some NaN
      | PosInf \<Rightarrow> None
      | NegInf \<Rightarrow> None)"

text \<open>\<open>INTEGER\<close>, and the \<open>CHECK\<close> on \<open>rating\<close>; a null passes both.\<close>

definition pg_integer :: "int option \<Rightarrow> bool" where
  "pg_integer x = (case x of None \<Rightarrow> True | Some i \<Rightarrow> - (2 ^ 31) \<le> i \<and> i < 2 ^ 31)"

definition rating_check :: "int option \<Rightarrow> bool" where
  "rating_check x = (case x of None \<Rightarrow> True | Some r \<Rightarrow> 1 \<le> r \<and> r \<le> 5)"

text \<open>\<open>DATE\<close>, for the text \<open>YYYY-01-01\<close> kept as its year: there is no year 0.\<close>

definition pg_date :: "nat option \<Rightarrow> bool" where
  "pg_date x = (case x of None \<Rightarrow> True | Some y \<Rightarrow> 1 \<le> y)"

text \<open>A foreign key: a null, or the \<open>id\<close> of a row of the table referenced.\<close>

definition references :: "nat option \<Rightarrow> (nat \<times> 'a) list \<Rightarrow> bool" where
  "references x tbl = (case x of None \<Rightarrow> True | Some i \<Rightarrow> i \<in> set (map fst tbl))"

subsection \<open>The insert statements\<close>

text \<open>
  Every statement takes the next value of its table's sequence first. On an error the
  tables are returned as they were; the caller rolls back.

  \<open>INSERT INTO t (name) VALUES (%s) ON CONFLICT (name) DO NOTHING\<close> on a table with a
  unique \<open>name\<close> of type \<open>VARCHAR(limit)\<close>; \<open>i\<close> is the value taken from the sequence.
\<close>

definition insert_name_row :: "nat \<Rightarrow> string \<Rightarrow> nat \<Rightarrow> (nat \<times> string) list \<Rightarrow> error + (nat \<times> string) list" where
  "insert_name_row limit nm i tbl =
     (case varchar limit nm of
        None \<Rightarrow> Inl DataError
      | Some v \<Rightarrow>
          if v \<in> set (map snd tbl) then Inr tbl
          else if i \<in> set (map fst tbl) then Inl IntegrityError
          else Inr (tbl @ [(i, v)]))"

definition sql_insert_category :: "string \<Rightarrow> server \<Rightarrow> error option \<times> server" where
  "sql_insert_category nm sv =
     (case sv of (d, q) \<Rightarrow>
        (let q' = q\<lparr>categories_seq := categories_seq q + 1\<rparr>
         in case insert_name_row 255 nm (categories_seq q) (categories_tbl d) of
              Inl e \<Rightarrow> (Some e, (d, q'))
            | Inr t \<Rightarrow> (None, (d\<lparr>categories_tbl := t\<rparr>, q'))))"

definition sql_insert_publisher :: "string \<Rightarrow> server \<Rightarrow> error option \<times> server" where
  "sql_insert_publisher nm sv =
     (case sv of (d, q) \<Rightarrow>
        (let q' = q\<lparr>publishers_seq := publishers_seq q + 1\<rparr>
         in case insert_name_row 255 nm (publishers_seq q) (publishers_tbl d) of
              Inl e \<Rightarrow> (Some e, (d, q'))
            | Inr t \<Rightarrow> (None, (d\<lparr>publishers_tbl := t\<rparr>, q'))))"

definition sql_insert_tag :: "string \<Rightarrow> server \<Rightarrow> error option \<times> server" where
  "sql_insert_tag nm sv =
     (case sv of (d, q) \<Rightarrow>
        (let q' = q\<lparr>tags_seq := tags_seq q + 1\<rparr>
         in case insert_name_row 100 nm (tags_seq q) (tags_tbl d) of
              Inl e \<Rightarrow> (Some e, (d, q'))
            | Inr t \<Rightarrow> (None, (d\<lparr>tags_tbl := t\<rparr>, q'))))"

text \<open>
  The insert into \<open>authors\<close>, \<open>ON CONFLICT (name, birth_date) DO NOTHING\<close>: two rows
  conflict when the names are equal and the birth dates are equal and not null.
\<close>

definition author_values :: "author \<Rightarrow> error + author" where
  "author_values a =
     (case varchar 255 (au_name a) of
        None \<Rightarrow> Inl DataError
      | Some n \<Rightarrow>
          if \<not> pg_date (birth_date a) \<or> \<not> pg_date (death_date a) then Inl DataError
          else if pg_text (bio a) = None then Inl DataError
          else (case openlibrary_key a of
                  None \<Rightarrow> Inr (a\<lparr>au_name := n\<rparr>)
                | Some k \<Rightarrow>
                    (case varchar 255 k of
                       None \<Rightarrow> Inl DataError
                     | Some k' \<Rightarrow> Inr (a\<lparr>au_name := n, openlibrary_key := Some k'\<rparr>))))"

definition author_conflict :: "author \<Rightarrow> (nat \<times> author) list \<Rightarrow> bool" where
  "author_conflict a tbl =
     (birth_date a \<noteq> None \<and>
      list_ex (\<lambda>r. au_name (snd r) = au_name a \<and> birth_date (snd r) = birth_date a) tbl)"

definition sql_insert_author :: "author \<Rightarrow> server \<Rightarrow> error option \<times> server" where
  "sql_insert_author a sv =
     (case sv of (d, q) \<Rightarrow>
        (let i = authors_seq q; q' = q\<lparr>authors_seq := i + 1\<rparr>
         in case author_values a of
              Inl e \<Rightarrow> (Some e, (d, q'))
            | Inr v \<Rightarrow>
                if author_conflict v (authors_tbl d) then (None, (d, q'))
                else if i \<in> set (map fst (authors_tbl d)) then (Some IntegrityError, (d, q'))
                else (None, (d\<lparr>authors_tbl := authors_tbl d @ [(i, v)]\<rparr>, q'))))"

text \<open>The insert into \<open>books\<close>, \<open>RETURNING id\<close>.\<close>

definition check_book_values :: "database \<Rightarrow> book_values \<Rightarrow> error + book_values" where
  "check_book_values d v =
     (case (varchar 500 (v_title v), decimal_10_2 (v_price v), varchar 100 (v_availability v),
            pg_text (v_description v), varchar 500 (v_image_url v), varchar 50 (v_upc v)) of
        (Some t, Some p, Some a, Some ds, Some im, Some u) \<Rightarrow>
          if \<not> pg_integer (v_rating v) \<or> \<not> pg_integer (v_publication_year v) then Inl DataError
          else if \<not> rating_check (v_rating v) then Inl IntegrityError
          else if \<not> references (v_category_id v) (categories_tbl d) then Inl IntegrityError
          else if \<not> references (Some (v_publisher_id v)) (publishers_tbl d) then Inl IntegrityError
          else Inr (v\<lparr>v_title := t, v_price := p, v_availability := a, v_description := ds,
                      v_image_url := im, v_upc := u\<rparr>)
      | _ \<Rightarrow> Inl DataError)"

definition sql_insert_book :: "book_values \<Rightarrow> server \<Rightarrow> (error + nat) \<times> server" where
  "sql_insert_book v sv =
     (case sv of (d, q) \<Rightarrow>
        (let i = books_seq q; q' = q\<lparr>books_seq := i + 1\<rparr>
         in case check_book_values d v of
              Inl e \<Rightarrow> (Inl e, (d, q'))
            | Inr v' \<Rightarrow>
                if i \<in> set (map fst (books_tbl d)) then (Inl IntegrityError, (d, q'))
                else (Inr i, (d\<lparr>books_tbl := books_tbl d @ [(i, v')]\<rparr>, q'))))"

text \<open>
  The inserts into the two junction tables, \<open>ON CONFLICT (left, right) DO NOTHING\<close>:
  \<open>i\<close> is the value taken from the sequence, \<open>lefts\<close> and \<open>rights\<close> are the \<open>id\<close>s of the
  tables referenced.
\<close>

definition insert_pair_row ::
  "nat \<times> nat \<Rightarrow> nat \<Rightarrow> nat list \<Rightarrow> nat list \<Rightarrow> (nat \<times> nat \<times> nat) list \<Rightarrow> error + (nat \<times> nat \<times> nat) list" where
  "insert_pair_row pair i lefts rights tbl =
     (if pair \<in> set (map snd tbl) then Inr tbl
      else if i \<in> set (map fst tbl) then Inl IntegrityError
      else if fst pair \<notin> set lefts \<or> snd pair \<notin> set rights then Inl IntegrityError
      else Inr (tbl @ [(i, pair)]))"

definition sql_insert_book_author :: "nat \<times> nat \<Rightarrow> server \<Rightarrow> error option \<times> server" where
  "sql_insert_book_author pair sv =
     (case sv of (d, q) \<Rightarrow>
        (let q' = q\<lparr>book_authors_seq := book_authors_seq q + 1\<rparr>
         in case insert_pair_row pair (book_authors_seq q) (map fst (books_tbl d))
                   (map fst (authors_tbl d)) (book_authors_tbl d) of
              Inl e \<Rightarrow> (Some e, (d, q'))
            | Inr t \<Rightarrow> (None, (d\<lparr>book_authors_tbl := t\<rparr>, q'))))"

definition sql_insert_quote_tag :: "nat \<times> nat \<Rightarrow> server \<Rightarrow> error option \<times> server" where
  "sql_insert_quote_tag pair sv =
     (case sv of (d, q) \<Rightarrow>
        (let q' = q\<lparr>quote_tags_seq := quote_tags_seq q + 1\<rparr>
         in case insert_pair_row pair (quote_tags_seq q) (map fst (quotes_tbl d))
                   (map fst (tags_tbl d)) (quote_tags_tbl d) of
              Inl e \<Rightarrow> (Some e, (d, q'))
            | Inr t \<Rightarrow> (None, (d\<lparr>quote_tags_tbl := t\<rparr>, q'))))"

text \<open>The insert into \<open>quotes\<close>, \<open>RETURNING id\<close>.\<close>

definition check_quote_values :: "database \<Rightarrow> quote_values \<Rightarrow> error + quote_values" where
  "check_quote_values d v =
     (if pg_text (v_text v) = None then Inl DataError
      else if \<not> references (v_author_id v) (authors_tbl d) then Inl IntegrityError
      else (case v_book_source v of
              None \<Rightarrow> Inr v
            | Some b \<Rightarrow>
                (case varchar 500 b of
                   None \<Rightarrow> Inl DataError
                 | Some b' \<Rightarrow> Inr (v\<lparr>v_book_source := Some b'\<rparr>))))"

definition sql_insert_quote :: "quote_values \<Rightarrow> server \<Rightarrow> (error + nat) \<times> server" where
  "sql_insert_quote v sv =
     (case sv of (d, q) \<Rightarrow>
        (let i = quotes_seq q; q' = q\<lparr>quotes_seq := i + 1\<rparr>
         in case check_quote_values d v of
              Inl e \<Rightarrow> (Inl e, (d, q'))
            | Inr v' \<Rightarrow>
                if i \<in> set (map fst (quotes_tbl d)) then (Inl IntegrityError, (d, q'))
                else (Inr i, (d\<lparr>quotes_tbl := quotes_tbl d @ [(i, v')]\<rparr>, q'))))"

subsection \<open>Dictionaries built from query results\<close>

text \<open>
  A dictionary keeps its keys in the order of their first insertion; storing under a key
  already there replaces the value in place.
\<close>

fun dict_set :: "'k \<Rightarrow> 'v \<Rightarrow> ('k \<times> 'v) list \<Rightarrow> ('k \<times> 'v) list" where
  "dict_set k v [] = [(k, v)]"
| "dict_set k v ((k', v') # kvs) =
     (if k' = k then (k, v) # kvs else (k', v') # dict_set k v kvs)"

text \<open>\<open>{row[1]: row[0] for row in rows}\<close> for rows \<open>(id, name)\<close>.\<close>

definition dict_of_rows :: "(nat \<times> string) list \<Rightarrow> (string \<times> nat) list" where
  "dict_of_rows rows = foldl (\<lambda>dict row. dict_set (snd row) (fst row) dict) [] rows"

section \<open>The insert phases\<close>

text \<open>
  The scraper object during the insert phases: the data collected, the tables as of the
  last commit or the statements since, the sequences, and the random generator.
\<close>

record scraper =
  self_categories :: "category list"
  self_books :: "book list"
  self_publishers :: "string list"
  self_authors :: "author list"
  self_quotes :: "quote list"
  self_tags :: "string list"
  db :: database
  seqs :: sequences
  rnd :: rng

text \<open>
  \<open>for x in xs: f(x)\<close>, where \<open>f\<close> may raise: the loop stops at the first exception with
  the state reached. In the second form \<open>f\<close> also changes the element it works on.
\<close>

fun for_each :: "('a \<Rightarrow> 's \<Rightarrow> error option \<times> 's) \<Rightarrow> 'a list \<Rightarrow> 's \<Rightarrow> error option \<times> 's" where
  "for_each f [] s = (None, s)"
| "for_each f (x # xs) s =
     (case f x s of
        (Some e, s') \<Rightarrow> (Some e, s')
      | (None, s') \<Rightarrow> for_each f xs s')"

fun for_each_update ::
  "('a \<Rightarrow> 's \<Rightarrow> (error + 'a) \<times> 's) \<Rightarrow> 'a list \<Rightarrow> 's \<Rightarrow> error option \<times> 'a list \<times> 's" where
  "for_each_update f [] s = (None, [], s)"
| "for_each_update f (x # xs) s =
     (case f x s of
        (Inl e, s') \<Rightarrow> (Some e, x # xs, s')
      | (Inr x', s') \<Rightarrow>
          (case for_each_update f xs s' of (r, xs', s'') \<Rightarrow> (r, x' # xs', s'')))"

text \<open>
  The frame every insert method shares. The \<open>try\<close> block runs its statements and
  ends with \<open>commit\<close>; the count query and the log line after the commit change nothing
  and, the connection being up, raise nothing. The handler calls \<open>rollback\<close>, which
  returns the tables to the last commit (the tables the method started with, since every
  method before it ended with a commit or a rollback), logs, and does not raise again. The
  first component of the result is the exception the method passes to its caller.
\<close>

definition transaction :: "(scraper \<Rightarrow> error option \<times> scraper) \<Rightarrow> scraper \<Rightarrow> error option \<times> scraper" where
  "transaction try_block st =
     (case try_block st of
        (None, st') \<Rightarrow> (None, st')
      | (Some e, st') \<Rightarrow> (None, st'\<lparr>db := db st\<rparr>))"

subsection \<open>Categories, publishers, authors and tags\<close>

definition insert_categories_try :: "scraper \<Rightarrow> error option \<times> scraper" where
  "insert_categories_try st =
     (case for_each (\<lambda>category. sql_insert_category (c_name category))
             (self_categories st) (db st, seqs st) of
        (r, (d, q)) \<Rightarrow> (r, st\<lparr>db := d, seqs := q\<rparr>))"

definition insert_categories :: "scraper \<Rightarrow> error option \<times> scraper" where
  "insert_categories = transaction insert_categories_try"

definition insert_publishers_try :: "scraper \<Rightarrow> error option \<times> scraper" where
  "insert_publishers_try st =
     (case for_each sql_insert_publisher (self_publishers st) (db st, seqs st) of
        (r, (d, q)) \<Rightarrow> (r, st\<lparr>db := d, seqs := q\<rparr>))"

definition insert_publishers :: "scraper \<Rightarrow> error option \<times> scraper" where
  "insert_publishers = transaction insert_publishers_try"

definition insert_authors_try :: "scraper \<Rightarrow> error option \<times> scraper" where
  "insert_authors_try st =
     (case for_each sql_insert_author (self_authors st) (db st, seqs st) of
        (r, (d, q)) \<Rightarrow> (r, st\<lparr>db := d, seqs := q\<rparr>))"

definition insert_authors :: "scraper \<Rightarrow> error option \<times> scraper" where
  "insert_authors = transaction insert_authors_try"

definition insert_tags_try :: "scraper \<Rightarrow> error option \<times> scraper" where
  "insert_tags_try st =
     (case for_each sql_insert_tag (self_tags st) (db st, seqs st) of
        (r, (d, q)) \<Rightarrow> (r, st\<lparr>db := d, seqs := q\<rparr>))"

definition insert_tags :: "scraper \<Rightarrow> error option \<times> scraper" where
  "insert_tags = transaction insert_tags_try"

subsection \<open>Books\<close>

text \<open>
  Lines 581-585: the category of a book. \<open>not category_id\<close> holds for \<open>None\<close> and
  for 0.
\<close>

definition pick_category_id ::
  "(string \<times> nat) list \<Rightarrow> category list \<Rightarrow> book \<Rightarrow> rng \<Rightarrow> (error + nat option) \<times> rng" where
  "pick_category_id categories_map cats book g =
     (let category_id = map_of categories_map (category book)
      in if (category_id = None \<or> category_id = Some 0) \<and> cats \<noteq> []
         then (case choice (map fst categories_map) g of
                 (Inl e, g') \<Rightarrow> (Inl e, g')
               | (Inr random_category, g') \<Rightarrow> (Inr (map_of categories_map random_category), g'))
         else (Inr category_id, g))"

text \<open>Lines 587-589: the publisher of a book.\<close>

definition pick_publisher_id :: "(string \<times> nat) list \<Rightarrow> rng \<Rightarrow> (error + nat) \<times> rng" where
  "pick_publisher_id publishers_map g =
     (case choice (map fst publishers_map) g of
        (Inl e, g') \<Rightarrow> (Inl e, g')
      | (Inr publisher_name, g') \<Rightarrow>
          (case map_of publishers_map publisher_name of
             None \<Rightarrow> (Inl KeyError, g')
           | Some publisher_id \<Rightarrow> (Inr publisher_id, g')))"

text \<open>Lines 580-610: the body of the loop over the books.\<close>

definition insert_one_book ::
  "(string \<times> nat) list \<Rightarrow> (string \<times> nat) list \<Rightarrow> category list \<Rightarrow> book \<Rightarrow> server \<times> rng \<Rightarrow>
     (error + book) \<times> server \<times> rng" where
  "insert_one_book categories_map publishers_map cats book w =
     (case w of (sv, g) \<Rightarrow>
        (case pick_category_id categories_map cats book g of
           (Inl e, g1) \<Rightarrow> (Inl e, sv, g1)
         | (Inr category_id, g1) \<Rightarrow>
             (case pick_publisher_id publishers_map g1 of
                (Inl e, g2) \<Rightarrow> (Inl e, sv, g2)
              | (Inr publisher_id, g2) \<Rightarrow>
                  (case sql_insert_book
                          \<lparr>v_title = slice_to 500 (title book), v_price = price book,
                           v_availability = slice_to 100 (availability book),
                           v_description = description book, v_rating = rating book,
                           v_image_url = slice_to 500 (image_url book),
                           v_upc = slice_to 50 (upc book),
                           v_publication_year = publication_year book,
                           v_category_id = category_id, v_publisher_id = publisher_id\<rparr> sv of
                     (Inl e, sv') \<Rightarrow> (Inl e, sv', g2)
                   | (Inr book_id, sv') \<Rightarrow> (Inr (book\<lparr>db_id := Some book_id\<rparr>), sv', g2)))))"

definition insert_books_try :: "scraper \<Rightarrow> error option \<times> scraper" where
  "insert_books_try st =
     (let categories_map = dict_of_rows (categories_tbl (db st));
          publishers_map = dict_of_rows (publishers_tbl (db st))
      in case for_each_update (insert_one_book categories_map publishers_map (self_categories st))
                (self_books st) ((db st, seqs st), rnd st) of
           (r, books', (d, q), g) \<Rightarrow> (r, st\<lparr>self_books := books', db := d, seqs := q, rnd := g\<rparr>))"

definition insert_books :: "scraper \<Rightarrow> error option \<times> scraper" where
  "insert_books = transaction insert_books_try"

subsection \<open>Book authors\<close>

text \<open>Lines 643-650: the insert for one selected author.\<close>

definition link_author :: "(string \<times> nat) list \<Rightarrow> nat \<Rightarrow> string \<Rightarrow> server \<Rightarrow> error option \<times> server" where
  "link_author authors_map book_id author_name' sv =
     (case map_of authors_map author_name' of
        None \<Rightarrow> (Some KeyError, sv)
      | Some author_id \<Rightarrow> sql_insert_book_author (book_id, author_id) sv)"

text \<open>Lines 636-650: the body of the loop over the books.\<close>

definition link_book :: "(string \<times> nat) list \<Rightarrow> book \<Rightarrow> server \<times> rng \<Rightarrow> error option \<times> server \<times> rng" where
  "link_book authors_map book w =
     (case w of (sv, g) \<Rightarrow>
        (case db_id book of
           None \<Rightarrow> (None, sv, g)
         | Some book_id \<Rightarrow>
             (case randint 1 (min 3 (int (length authors_map))) g of
                (Inl e, g1) \<Rightarrow> (Some e, sv, g1)
              | (Inr num_authors, g1) \<Rightarrow>
                  (case sample (map fst authors_map) num_authors g1 of
                     (Inl e, g2) \<Rightarrow> (Some e, sv, g2)
                   | (Inr selected_authors, g2) \<Rightarrow>
                       (case for_each (link_author authors_map book_id) selected_authors sv of
                          (r, sv') \<Rightarrow> (r, sv', g2))))))"

text \<open>\<open>SELECT id, name FROM authors\<close>.\<close>

definition author_names :: "database \<Rightarrow> (nat \<times> string) list" where
  "author_names d = map (\<lambda>r. (fst r, au_name (snd r))) (authors_tbl d)"

definition insert_book_authors_relations_try :: "scraper \<Rightarrow> error option \<times> scraper" where
  "insert_book_authors_relations_try st =
     (let authors_map = dict_of_rows (author_names (db st))
      in case for_each (link_book authors_map) (self_books st) ((db st, seqs st), rnd st) of
           (r, (d, q), g) \<Rightarrow> (r, st\<lparr>db := d, seqs := q, rnd := g\<rparr>))"

definition insert_book_authors_relations :: "scraper \<Rightarrow> error option \<times> scraper" where
  "insert_book_authors_relations = transaction insert_book_authors_relations_try"

subsection \<open>Quotes and quote tags\<close>

text \<open>Lines 678-692: the body of the loop over the quotes.\<close>

definition insert_one_quote ::
  "(string \<times> nat) list \<Rightarrow> string list \<Rightarrow> quote \<Rightarrow> server \<times> rng \<Rightarrow> (error + quote) \<times> server \<times> rng" where
  "insert_one_quote authors_map book_titles quote w =
     (case w of (sv, g) \<Rightarrow>
        (let author_id = map_of authors_map (q_author quote)
         in case random_below_03 g of
              (below, g1) \<Rightarrow>
                (case (if below
                       then (case choice book_titles g1 of
                               (Inl e, g2) \<Rightarrow> (Inl e, g2)
                             | (Inr t, g2) \<Rightarrow> (Inr (Some t), g2))
                       else (Inr None, g1)) of
                   (Inl e, g2) \<Rightarrow> (Inl e, sv, g2)
                 | (Inr book_source, g2) \<Rightarrow>
                     (case sql_insert_quote
                             \<lparr>v_text = q_text quote, v_author_id = author_id,
                              v_book_source = book_source\<rparr> sv of
                        (Inl e, sv') \<Rightarrow> (Inl e, sv', g2)
                      | (Inr quote_id, sv') \<Rightarrow> (Inr (quote\<lparr>q_db_id := Some quote_id\<rparr>), sv', g2)))))"

definition insert_quotes_try :: "scraper \<Rightarrow> error option \<times> scraper" where
  "insert_quotes_try st =
     (let authors_map = dict_of_rows (author_names (db st));
          book_titles = take 50 (map (\<lambda>r. v_title (snd r)) (books_tbl (db st)))
      in case for_each_update (insert_one_quote authors_map book_titles)
                (self_quotes st) ((db st, seqs st), rnd st) of
           (r, quotes', (d, q), g) \<Rightarrow> (r, st\<lparr>self_quotes := quotes', db := d, seqs := q, rnd := g\<rparr>))"

definition insert_quotes :: "scraper \<Rightarrow> error option \<times> scraper" where
  "insert_quotes = transaction insert_quotes_try"

text \<open>Lines 742-749: one tag of one quote; a tag \<open>id\<close> that is \<open>None\<close> or 0 is skipped.\<close>

definition link_tag :: "(string \<times> nat) list \<Rightarrow> nat \<Rightarrow> string \<Rightarrow> server \<Rightarrow> error option \<times> server" where
  "link_tag tags_map quote_id tag_name sv =
     (case map_of tags_map tag_name of
        None \<Rightarrow> (None, sv)
      | Some tag_id \<Rightarrow>
          if tag_id = 0 then (None, sv) else sql_insert_quote_tag (quote_id, tag_id) sv)"

definition link_quote :: "(string \<times> nat) list \<Rightarrow> quote \<Rightarrow> server \<Rightarrow> error option \<times> server" where
  "link_quote tags_map quote sv =
     (case q_db_id quote of
        None \<Rightarrow> (None, sv)
      | Some quote_id \<Rightarrow> for_each (link_tag tags_map quote_id) (q_tags quote) sv)"

definition insert_quote_tags_relations_try :: "scraper \<Rightarrow> error option \<times> scraper" where
  "insert_quote_tags_relations_try st =
     (let tags_map = dict_of_rows (tags_tbl (db st))
      in case for_each (link_quote tags_map) (self_quotes st) (db st, seqs st) of
           (r, (d, q)) \<Rightarrow> (r, st\<lparr>db := d, seqs := q\<rparr>))"

definition insert_quote_tags_relations :: "scraper \<Rightarrow> error option \<times> scraper" where
  "insert_quote_tags_relations = transaction insert_quote_tags_relations_try"

subsection \<open>The pipeline\<close>

text \<open>
  Two calls in a row inside the \<open>try\<close> block of \<open>run_full_pipeline\<close>: the second runs
  when the first returned.
\<close>

definition then_call ::
  "(scraper \<Rightarrow> error option \<times> scraper) \<Rightarrow> (scraper \<Rightarrow> error option \<times> scraper) \<Rightarrow>
     scraper \<Rightarrow> error option \<times> scraper" where
  "then_call f g st =
     (case f st of
        (Some e, st') \<Rightarrow> (Some e, st')
      | (None, st') \<Rightarrow> g st')"

text \<open>Lines 953-960 of \<open>run_full_pipeline\<close>.\<close>

definition insert_phases :: "scraper \<Rightarrow> error option \<times> scraper" where
  "insert_phases =
     then_call insert_categories
       (then_call insert_publishers
          (then_call insert_authors
             (then_call insert_books
                (then_call insert_book_authors_relations
                   (then_call insert_quotes
                      (then_call insert_tags insert_quote_tags_relations))))))"

section \<open>Predicates of the statements\<close>

text \<open>The authors linked to a book: the \<open>author_id\<close>s of its rows in \<open>book_authors\<close>.\<close>

definition author_links :: "nat \<Rightarrow> database \<Rightarrow> nat list" where
  "author_links book_id d =
     map (\<lambda>r. snd (snd r)) (filter (\<lambda>r. fst (snd r) = book_id) (book_authors_tbl d))"

text \<open>
  What the linking loop keeps true, relative to the database \<open>d0\<close> the phase started
  with: the books and the authors are those of \<open>d0\<close>, and the sequence of
  \<open>book_authors\<close> is ahead of every \<open>id\<close> in the table.
\<close>

definition links_inv :: "database \<Rightarrow> server \<Rightarrow> bool" where
  "links_inv d0 sv =
     (books_tbl (fst sv) = books_tbl d0 \<and> authors_tbl (fst sv) = authors_tbl d0 \<and>
      list_all (\<lambda>r. fst r < book_authors_seq (snd sv)) (book_authors_tbl (fst sv)))"

text \<open>A list of author links that the linking phase may give a book.\<close>

definition good_links :: "database \<Rightarrow> nat list \<Rightarrow> bool" where
  "good_links d0 ls =
     (1 \<le> length ls \<and> length ls \<le> min 3 (length (dict_of_rows (author_names d0))) \<and>
      distinct ls \<and> set ls \<subseteq> set (map fst (authors_tbl d0)))"


section \<open>Example inputs\<close>

text \<open>A book page with the product table of the catalogue site, and a site serving it.\<close>

definition availability_page :: detail_soup where
  "availability_page =
     \<lparr>product_description = Some (Some ''A collection of poems.''),
      product_table = Some [(Some ''UPC'', Some ''a897fe39b1053632''),
                            (Some ''Product Type'', Some ''Books''),
                            (Some ''Availability'', Some ''In stock (22 available)''),
                            (Some ''Number of reviews'', Some ''0'')],
      breadcrumb = Some [''Home'', ''Books'', ''Poetry'']\<rparr>"

definition poetry_container :: book_container where
  "poetry_container =
     \<lparr>h3 = Some (Some \<lparr>a_title = Some ''A Light in the Attic'',
                       a_url = ''catalogue/a-light-in-the-attic_1000/index.html''\<rparr>),
      price_color = Some (pound # ''51.77''),
      instock = Some ''  In stock  '',
      star_rating = Some [''star-rating'', ''Three''],
      image_container = Some (Some ''media/cache/2c/da/2cdad67c.jpg'')\<rparr>"

definition catalogue_site :: site where
  "catalogue_site =
     \<lparr>home = NoResponse,
      listing = (\<lambda>page. if page = 1 then Response 200 [poetry_container] else Response 404 []),
      detail = (\<lambda>u. Response 200 availability_page),
      quotes_page = (\<lambda>page. Response 404 [])\<rparr>"

text \<open>A navigation list whose entries carry counts.\<close>

definition counted_nav_site :: site where
  "counted_nav_site =
     \<lparr>home = Response 200
               (Some [\<lparr>link_text = ''  Books 1000  '', link_url = ''index.html''\<rparr>,
                      \<lparr>link_text = ''  Travel 11  '', link_url = ''travel_2/index.html''\<rparr>,
                      \<lparr>link_text = ''Travel'', link_url = ''travel_3/index.html''\<rparr>]),
      listing = (\<lambda>page. Response 404 []),
      detail = (\<lambda>u. NoResponse),
      quotes_page = (\<lambda>page. Response 404 [])\<rparr>"

text \<open>The stripped texts of the links \<open>extract_categories\<close> iterates over.\<close>

definition nav_texts :: "site \<Rightarrow> string list" where
  "nav_texts s =
     (case raise_for_status (home s) of
        Inr (Some category_links) \<Rightarrow> map (\<lambda>link. strip (link_text link)) category_links
      | _ \<Rightarrow> [])"





text \<open>An empty schema, as \<open>create_tables\<close> leaves it.\<close>

definition empty_db :: database where
  "empty_db =
     \<lparr>categories_tbl = [], publishers_tbl = [], authors_tbl = [], books_tbl = [],
      book_authors_tbl = [], tags_tbl = [], quotes_tbl = [], quote_tags_tbl = []\<rparr>"

definition fresh_seqs :: sequences where
  "fresh_seqs =
     \<lparr>categories_seq = 1, publishers_seq = 1, authors_seq = 1, books_seq = 1,
      book_authors_seq = 1, tags_seq = 1, quotes_seq = 1, quote_tags_seq = 1\<rparr>"

text \<open>The book \<open>extract_book_details\<close> returns for \<open>poetry_container\<close>.\<close>

definition poetry_book :: book where
  "poetry_book =
     \<lparr>title = ''A Light in the Attic'', price = Finite (5177 / 100),
      availability = ''In stock'', rating = Some 3,
      image_url = ''media/cache/2c/da/2cdad67c.jpg'',
      url = ''catalogue/a-light-in-the-attic_1000/index.html'',
      description = ''A collection of poems.'', upc = ''a897fe39b1053632'',
      publication_year = None, category = ''Poetry'', db_id = None\<rparr>"

text \<open>
  Two books, the second with a price that does not fit \<open>DECIMAL(10,2)\<close>, one
  publisher already inserted, and one tag to insert.
\<close>

definition costly_book :: book where
  "costly_book = poetry_book\<lparr>title := ''Priceless'', price := Finite 1000000000\<rparr>"

definition two_books_state :: scraper where
  "two_books_state =
     \<lparr>self_categories = [], self_books = [poetry_book, costly_book],
      self_publishers = [''Wiley''], self_authors = [], self_quotes = [],
      self_tags = [''life''],
      db = empty_db\<lparr>publishers_tbl := [(1, ''Wiley'')]\<rparr>,
      seqs = fresh_seqs\<lparr>publishers_seq := 2\<rparr>, rnd = (\<lambda>i. 0)\<rparr>"


definition travel_state :: scraper where
  "travel_state =
     \<lparr>self_categories = [\<lparr>c_name = ''Travel'', c_url = ''travel_2/index.html''\<rparr>],
      self_books = [poetry_book],
      self_publishers = [''Wiley''], self_authors = [], self_quotes = [], self_tags = [],
      db = empty_db\<lparr>categories_tbl := [(1, ''Travel'')], publishers_tbl := [(1, ''Wiley'')]\<rparr>,
      seqs = fresh_seqs\<lparr>categories_seq := 2, publishers_seq := 2\<rparr>, rnd = (\<lambda>i. 0)\<rparr>"

text \<open>One inserted book and two inserted authors.\<close>

definition jane :: author where
  "jane = \<lparr>au_name = ''Jane Doe'', birth_date = None, death_date = None, bio = [],
           openlibrary_key = None\<rparr>"

definition poetry_row :: book_values where
  "poetry_row =
     \<lparr>v_title = ''A Light in the Attic'', v_price = Finite (5177 / 100),
      v_availability = ''In stock'', v_description = ''A collection of poems.'',
      v_rating = Some 3, v_image_url = ''media/cache/2c/da/2cdad67c.jpg'',
      v_upc = ''a897fe39b1053632'', v_publication_year = None,
      v_category_id = None, v_publisher_id = 1\<rparr>"

definition linked_state :: scraper where
  "linked_state =
     \<lparr>self_categories = [], self_books = [poetry_book\<lparr>db_id := Some 1\<rparr>],
      self_publishers = [''Wiley''],
      self_authors = [jane, jane\<lparr>au_name := ''John Roe''\<rparr>],
      self_quotes = [], self_tags = [],
      db = empty_db\<lparr>publishers_tbl := [(1, ''Wiley'')],
                    authors_tbl := [(1, jane), (2, jane\<lparr>au_name := ''John Roe''\<rparr>)],
                    books_tbl := [(1, poetry_row)]\<rparr>,
      seqs = fresh_seqs\<lparr>publishers_seq := 2, authors_seq := 3, books_seq := 2\<rparr>,
      rnd = (\<lambda>i. 1)\<rparr>"

section \<open>Theorems\<close>

subsection \<open>Star rating\<close>

lemma extract_rating_tokens:
  "extract_rating_from_class ''One'' = Some 1"
  "extract_rating_from_class ''Two'' = Some 2"
  "extract_rating_from_class ''Three'' = Some 3"
  "extract_rating_from_class ''Four'' = Some 4"
  "extract_rating_from_class ''Five'' = Some 5"
  by (simp_all add: extract_rating_from_class_def rating_map_def)

lemma rating_classes_loop_unmatched:
  "\<forall>cls \<in> set classes. cls \<notin> set [''One'', ''Two'', ''Three'', ''Four'', ''Five''] \<Longrightarrow>
   rating_classes_loop classes = None"
  by (induction classes) simp_all

lemma rating_classes_loop_first:
  "\<forall>cls \<in> set pre. cls \<notin> set [''One'', ''Two'', ''Three'', ''Four'', ''Five''] \<Longrightarrow>
   tok \<in> set [''One'', ''Two'', ''Three'', ''Four'', ''Five''] \<Longrightarrow>
   rating_classes_loop (pre @ tok # rest) = extract_rating_from_class tok"
  by (induction pre) simp_all

text \<open>
  C3. \<open>extract_rating_from_class\<close> sends the class tokens One, Two, Three, Four, Five to
  1, 2, 3, 4, 5. In \<open>extract_book_details\<close> the rating of a container is absent when
  the container has no star-rating paragraph or when none of the paragraph's classes is one
  of the five tokens; otherwise it is the number of the first class that is one of them.
\<close>

theorem rating_extraction:
  "extract_rating_from_class ''One'' = Some 1 \<and>
   extract_rating_from_class ''Two'' = Some 2 \<and>
   extract_rating_from_class ''Three'' = Some 3 \<and>
   extract_rating_from_class ''Four'' = Some 4 \<and>
   extract_rating_from_class ''Five'' = Some 5 \<and>
   book_rating None = None \<and>
   (\<forall>classes. (\<forall>cls \<in> set classes. cls \<notin> set [''One'', ''Two'', ''Three'', ''Four'', ''Five''])
      \<longrightarrow> book_rating (Some classes) = None) \<and>
   (\<forall>pre tok rest.
      (\<forall>cls \<in> set pre. cls \<notin> set [''One'', ''Two'', ''Three'', ''Four'', ''Five'']) \<and>
      tok \<in> set [''One'', ''Two'', ''Three'', ''Four'', ''Five'']
      \<longrightarrow> book_rating (Some (pre @ tok # rest)) = extract_rating_from_class tok)"
proof -
  have none: "\<forall>classes. (\<forall>cls \<in> set classes. cls \<notin> set [''One'', ''Two'', ''Three'', ''Four'', ''Five''])
      \<longrightarrow> book_rating (Some classes) = None"
    using rating_classes_loop_unmatched by (simp add: book_rating_def)
  have first: "\<forall>pre tok rest.
      (\<forall>cls \<in> set pre. cls \<notin> set [''One'', ''Two'', ''Three'', ''Four'', ''Five'']) \<and>
      tok \<in> set [''One'', ''Two'', ''Three'', ''Four'', ''Five'']
      \<longrightarrow> book_rating (Some (pre @ tok # rest)) = extract_rating_from_class tok"
    using rating_classes_loop_first by (simp add: book_rating_def)
  have absent: "book_rating None = None"
    by (simp add: book_rating_def)
  from extract_rating_tokens none first absent show ?thesis
    by blast
qed

theorem rating_extraction_witness:
  "book_rating (Some [''star-rating'', ''Three'']) = Some 3 \<and>
   book_rating (Some [''star-rating'', ''Seven'']) = None"
proof -
  have three: "extract_rating_from_class ''Three'' = Some 3"
    using rating_extraction by blast
  have first: "\<And>pre tok rest.
      \<forall>cls \<in> set pre. cls \<notin> set [''One'', ''Two'', ''Three'', ''Four'', ''Five''] \<Longrightarrow>
      tok \<in> set [''One'', ''Two'', ''Three'', ''Four'', ''Five''] \<Longrightarrow>
      book_rating (Some (pre @ tok # rest)) = extract_rating_from_class tok"
    using rating_extraction by blast
  have none: "\<And>classes.
      \<forall>cls \<in> set classes. cls \<notin> set [''One'', ''Two'', ''Three'', ''Four'', ''Five''] \<Longrightarrow>
      book_rating (Some classes) = None"
    using rating_extraction by blast
  have "book_rating (Some ([''star-rating''] @ ''Three'' # [])) = extract_rating_from_class ''Three''"
    by (rule first) simp_all
  moreover have "book_rating (Some [''star-rating'', ''Seven'']) = None"
    by (rule none) simp
  ultimately show ?thesis
    using three by simp
qed

subsection \<open>Prices\<close>

lemmas price_eval =
  book_price_def py_float_def sub_pound_comma_def pound_def strip_def py_isspace_def
  split_sign_def parse_decimal_def py_isdigit_def parse_exponent_def scale10_def
  digits_val_def digit_val_def

text \<open>
  C4. The price of a container is \<open>float\<close> of its price text without pound signs and
  commas: the text of the pound sign followed by 51.77 gives 51.77, the pound sign followed by
  0.00 gives 0.0, and a container without a price element gets 0.0.
\<close>

theorem price_parsing:
  "book_price (Some t) = py_float (sub_pound_comma t) \<and>
   book_price (Some (pound # ''51.77'')) = Inr (Finite (5177 / 100)) \<and>
   book_price (Some (pound # ''0.00'')) = Inr (Finite 0) \<and>
   book_price None = Inr (Finite 0)"
proof -
  have "book_price (Some t) = py_float (sub_pound_comma t)"
    by (simp add: book_price_def)
  moreover have "book_price (Some (pound # ''51.77'')) = Inr (Finite (5177 / 100))"
    by (simp add: price_eval)
  moreover have "book_price (Some (pound # ''0.00'')) = Inr (Finite 0)"
    by (simp add: price_eval)
  moreover have "book_price None = Inr (Finite 0)"
    by (simp add: price_eval)
  ultimately show ?thesis
    by blast
qed


subsection \<open>Publication year\<close>

lemmas str_eval = strip_def py_isspace_def py_isdigit_def lower_def lower_char_def char_of_eq_iff

text \<open>
  C2. On a book page served without error whose product table has the rows of the
  catalogue site (UPC, Product Type, Availability, Number of reviews),
  \<open>get_book_page_details\<close> returns no publication year: the lower-cased key
  \<open>availability\<close> does not contain \<open>available\<close>, so neither the extraction nor the
  random year of lines 340-345 is reached, and the handler of line 356 does not run.
\<close>

theorem publication_year_absent:
  "get_book_page_details catalogue_site u g =
     (Inr \<lparr>d_description = ''A collection of poems.'', d_upc = ''a897fe39b1053632'',
           d_publication_year = None, d_category = ''Poetry''\<rparr>, g) \<and>
   extract_book_details catalogue_site poetry_container g = (Some poetry_book, g) \<and>
   publication_year poetry_book = None"
proof -
  have d: "get_book_page_details catalogue_site u g =
     (Inr \<lparr>d_description = ''A collection of poems.'', d_upc = ''a897fe39b1053632'',
           d_publication_year = None, d_category = ''Poetry''\<rparr>, g)" for u
    by (simp add: get_book_page_details_def book_page_try_def catalogue_site_def
        raise_for_status_def availability_page_def initial_details_def str_eval)
  have "extract_book_details catalogue_site poetry_container g = (Some poetry_book, g)"
    unfolding extract_book_details_def poetry_container_def
    by (simp add: d price_eval book_rating_def extract_rating_from_class_def rating_map_def
        strip_def py_isspace_def poetry_book_def)
  moreover have "publication_year poetry_book = None"
    by (simp add: poetry_book_def)
  ultimately show ?thesis using d by simp
qed

subsection \<open>Book listing\<close>

lemma containers_loop_retains:
  "\<exists>more. fst (containers_loop s cs books g) = books @ more"
proof (induction cs arbitrary: books g)
  case Nil
  then show ?case by simp
next
  case (Cons c cs)
  show ?case
  proof (cases "extract_book_details s c g")
    case (Pair r g')
    show ?thesis
    proof (cases r)
      case None
      with Pair Cons[of books g'] show ?thesis by simp
    next
      case (Some b)
      from Cons[of "books @ [b]" g'] obtain more
        where "fst (containers_loop s cs (books @ [b]) g') = (books @ [b]) @ more" by blast
      with Pair Some show ?thesis by simp
    qed
  qed
qed

lemma extract_books_loop_break:
  "listing s page = NoResponse \<Longrightarrow>
     extract_books_loop s page (books, g, req) = (books, g, req @ [page])"
  "listing s page = Response 404 body \<Longrightarrow>
     extract_books_loop s page (books, g, req) = (books, g, req @ [page])"
  "listing s page = Response code [] \<Longrightarrow>
     extract_books_loop s page (books, g, req) = (books, g, req @ [page])"
  "listing s page = Response code body \<Longrightarrow> 400 \<le> code \<Longrightarrow> code < 600 \<Longrightarrow>
     extract_books_loop s page (books, g, req) = (books, g, req @ [page])"
  by (subst extract_books_loop.simps, simp)+

lemma extract_books_loop_retains:
  "\<exists>more. fst (extract_books_loop s page (books, g, req)) = books @ more"
proof (induction s page "(books, g, req)" arbitrary: books g req rule: extract_books_loop.induct)
  case (1 s page books g requested)
  show ?case
  proof (cases "listing s page")
    case NoResponse
    then show ?thesis by (simp add: extract_books_loop_break)
  next
    case (Response code containers)
    obtain books' g' where cl: "containers_loop s containers books g = (books', g')"
      by (cases "containers_loop s containers books g")
    from containers_loop_retains[of s containers books g] cl
    obtain m1 where m1: "books' = books @ m1" by auto
    show ?thesis
    proof (cases "code = 404 \<or> (400 \<le> code \<and> code < 600) \<or> containers = [] \<or> page + 1 > 5")
      case True
      with Response cl m1 show ?thesis
        by (subst extract_books_loop.simps) auto
    next
      case False
      with 1[OF Response _ _ _ cl[symmetric]] obtain m2
        where "fst (extract_books_loop s (page + 1) (books', g', requested @ [page])) = books' @ m2"
        by auto
      with False Response cl m1 show ?thesis
        by (subst extract_books_loop.simps) auto
    qed
  qed
qed

lemma extract_books_loop_requested:
  "\<exists>k. snd (snd (extract_books_loop s page (books, g, req))) = req @ [page..<page + k] \<and>
       1 \<le> k \<and> (k = 1 \<or> page + k \<le> 6)"
proof (induction s page "(books, g, req)" arbitrary: books g req rule: extract_books_loop.induct)
  case (1 s page books g requested)
  have one: "requested @ [page] = requested @ [page..<page + 1]" by simp
  show ?case
  proof (cases "listing s page")
    case NoResponse
    then show ?thesis using one by (metis extract_books_loop_break(1) le_refl snd_conv)
  next
    case (Response code containers)
    obtain books' g' where cl: "containers_loop s containers books g = (books', g')"
      by (cases "containers_loop s containers books g")
    show ?thesis
    proof (cases "code = 404 \<or> (400 \<le> code \<and> code < 600) \<or> containers = [] \<or> page + 1 > 5")
      case True
      have "snd (snd (extract_books_loop s page (books, g, requested))) = requested @ [page]"
        using True Response cl by (subst extract_books_loop.simps) auto
      then show ?thesis using one by (metis le_refl)
    next
      case False
      with 1[OF Response _ _ _ cl[symmetric]] obtain k
        where k: "snd (snd (extract_books_loop s (page + 1) (books', g', requested @ [page]))) =
                 (requested @ [page]) @ [page + 1..<page + 1 + k]" "1 \<le> k" "k = 1 \<or> page + 1 + k \<le> 6"
        by auto
      from False have eq: "extract_books_loop s page (books, g, requested) =
                 extract_books_loop s (page + 1) (books', g', requested @ [page])"
        using Response cl by (subst extract_books_loop.simps) auto
      have "(requested @ [page]) @ [page + 1..<page + 1 + k] = requested @ [page..<page + (k + 1)]"
        by (simp add: upt_conv_Cons)
      with k eq False show ?thesis
        by (intro exI[of _ "k + 1"]) auto
    qed
  qed
qed

text \<open>
  C6. \<open>extract_books\<close> is a total function. Started at page 1 it requests the
  listing pages 1 to k in order, for some k from 1 to 5. From any page and any state, the
  books collected before are a prefix of the books it returns; a page answering 404, a page
  without book containers, a request that raises and a response with an error status each
  end the loop at once with the books and the generator unchanged.
\<close>

theorem extract_books_terminates:
  "(\<exists>k. snd (snd (extract_books s st)) = [1..<1 + k] \<and> 1 \<le> k \<and> k \<le> 5) \<and>
   (\<exists>more. fst (extract_books_loop s page (books, g, req)) = books @ more) \<and>
   (listing s page = Response 404 body \<longrightarrow>
      extract_books_loop s page (books, g, req) = (books, g, req @ [page])) \<and>
   (listing s page = Response code [] \<longrightarrow>
      extract_books_loop s page (books, g, req) = (books, g, req @ [page])) \<and>
   (listing s page = NoResponse \<longrightarrow>
      extract_books_loop s page (books, g, req) = (books, g, req @ [page])) \<and>
   (listing s page = Response code body \<and> 400 \<le> code \<and> code < 600 \<longrightarrow>
      extract_books_loop s page (books, g, req) = (books, g, req @ [page]))"
proof -
  from extract_books_loop_requested[of s 1 "fst st" "snd st" "[]"]
  obtain k where k: "snd (snd (extract_books s st)) = [1..<1 + k]" "1 \<le> k" "k = 1 \<or> 1 + k \<le> 6"
    by (auto simp: extract_books_def)
  then have "k \<le> 5" by auto
  with k have cap: "\<exists>k. snd (snd (extract_books s st)) = [1..<1 + k] \<and> 1 \<le> k \<and> k \<le> 5"
    by blast
  from cap extract_books_loop_retains[of s page books g req]
    extract_books_loop_break(1)[of s page books g req]
    extract_books_loop_break(2)[of s page body books g req]
    extract_books_loop_break(3)[of s page code books g req]
    extract_books_loop_break(4)[of s page code body books g req]
  show ?thesis by blast
qed

theorem extract_books_terminates_witness:
  "listing catalogue_site 2 = Response 404 [] \<and>
   extract_books_loop catalogue_site 2 ([], (\<lambda>i. 0), [1]) = ([], (\<lambda>i. 0), [1, 2]) \<and>
   (\<exists>k. snd (snd (extract_books catalogue_site ([], (\<lambda>i. 0)))) = [1..<1 + k] \<and> 1 \<le> k \<and> k \<le> 5)"
proof -
  have l: "listing catalogue_site 2 = Response 404 []"
    by (simp add: catalogue_site_def)
  from extract_books_terminates[of catalogue_site "([], (\<lambda>i. 0))" 2 "[]" "(\<lambda>i. 0)" "[1]" "[]" 404] l
  show ?thesis by simp
qed

subsection \<open>Categories\<close>

lemma category_links_loop_distinct:
  "distinct (map c_name cats) \<Longrightarrow> distinct (map c_name (category_links_loop links cats))"
  by (induction links arbitrary: cats) (auto simp: Let_def)

lemma category_links_loop_names:
  "n \<in> set (map c_name (category_links_loop links cats)) \<Longrightarrow>
   n \<in> set (map c_name cats) \<or>
   (\<exists>t \<in> set (map (\<lambda>link. strip (link_text link)) links).
      t \<noteq> [] \<and> t \<noteq> ''Books'' \<and> n = strip (sub_trailing_count t))"
proof (induction links arbitrary: cats)
  case Nil
  then show ?case by simp
next
  case (Cons link links)
  let ?t = "strip (link_text link)"
  show ?case
  proof (cases "?t \<noteq> [] \<and> ?t \<noteq> ''Books'' \<and> strip (sub_trailing_count ?t) \<notin> set (map c_name cats)")
    case True
    with Cons.prems have "n \<in> set (map c_name (category_links_loop links
        (cats @ [\<lparr>c_name = strip (sub_trailing_count ?t), c_url = link_url link\<rparr>])))"
      by (simp add: Let_def)
    from Cons.IH[OF this] True show ?thesis by auto
  next
    case False
    with Cons.prems have "n \<in> set (map c_name (category_links_loop links cats))"
      by (auto simp: Let_def split: if_splits)
    from Cons.IH[OF this] show ?thesis by auto
  qed
qed

lemma not_digit_space: "py_isspace c \<Longrightarrow> \<not> py_isdigit c"
  by (auto simp: py_isspace_def py_isdigit_def Let_def)

lemma sub_trailing_count_strips:
  assumes ds: "ds \<noteq> []" "list_all py_isdigit ds"
    and ws: "ws \<noteq> []" "list_all py_isspace ws"
    and n: "n = [] \<or> \<not> py_isspace (last n)"
  shows "sub_trailing_count (n @ ws @ ds) = n"
proof -
  have r: "rev (n @ ws @ ds) = rev ds @ rev ws @ rev n" by simp
  from ws obtain w ws' where w: "rev ws = w # ws'" by (cases "rev ws") auto
  with ws have wsp: "py_isspace w" by (metis list.set_intros(1) list_all_iff set_rev)
  have d1: "takeWhile py_isdigit (rev (n @ ws @ ds)) = rev ds"
    unfolding r using ds w wsp not_digit_space
    by (simp add: takeWhile_append2 list_all_iff takeWhile_tail)
  have d2: "dropWhile py_isdigit (rev (n @ ws @ ds)) = rev ws @ rev n"
    unfolding r using ds w wsp not_digit_space
    by (simp add: list_all_iff dropWhile_append2 dropWhile_append3)
  have n': "rev n = [] \<or> \<not> py_isspace (hd (rev n))"
    using n by (auto simp: hd_rev)
  have d3: "takeWhile py_isspace (rev ws @ rev n) = rev ws"
    using ws n' by (cases "rev n") (auto simp: list_all_iff takeWhile_tail)
  have d4: "dropWhile py_isspace (rev ws @ rev n) = rev n"
    using ws n' by (cases "rev n") (auto simp: list_all_iff dropWhile_append3 dropWhile_append2)
  show ?thesis
    using d1 d2 d3 d4 ds ws
    by (simp add: sub_trailing_count_def ends_with_count_def drop_count_def)
qed

text \<open>
  C7, as stated, fails: a link whose text is the root label followed by a count passes the
  test of line 187, made before the count is removed, and is collected under the name
  \<open>Books\<close>.
\<close>

theorem extract_categories_books_counterexample:
  "map c_name (extract_categories counted_nav_site []) = [''Books'', ''Travel'']"
  by (simp add: extract_categories_def counted_nav_site_def raise_for_status_def
      sub_trailing_count_def ends_with_count_def drop_count_def str_eval)

text \<open>
  C7, amended. The names collected by \<open>extract_categories\<close> are pairwise distinct when
  the names collected before were; every name collected is the stripped text of a link of
  the navigation list, non-empty and different from \<open>Books\<close>, with its trailing count
  removed; and the removal turns a name followed by whitespace and digits into the name.
\<close>

theorem extract_categories_names:
  "(distinct (map c_name cats) \<longrightarrow> distinct (map c_name (extract_categories s cats))) \<and>
   (\<forall>n \<in> set (map c_name (extract_categories s cats)).
      n \<in> set (map c_name cats) \<or>
      (\<exists>t \<in> set (nav_texts s). t \<noteq> [] \<and> t \<noteq> ''Books'' \<and> n = strip (sub_trailing_count t))) \<and>
   (ds \<noteq> [] \<and> list_all py_isdigit ds \<and> ws \<noteq> [] \<and> list_all py_isspace ws \<and>
    (nm = [] \<or> \<not> py_isspace (last nm)) \<longrightarrow> sub_trailing_count (nm @ ws @ ds) = nm)"
proof -
  have a: "distinct (map c_name cats) \<longrightarrow> distinct (map c_name (extract_categories s cats))"
    by (auto simp: extract_categories_def category_links_loop_distinct split: sum.splits option.splits)
  have b: "\<forall>n \<in> set (map c_name (extract_categories s cats)).
      n \<in> set (map c_name cats) \<or>
      (\<exists>t \<in> set (nav_texts s). t \<noteq> [] \<and> t \<noteq> ''Books'' \<and> n = strip (sub_trailing_count t))"
  proof
    fix n assume n: "n \<in> set (map c_name (extract_categories s cats))"
    show "n \<in> set (map c_name cats) \<or>
      (\<exists>t \<in> set (nav_texts s). t \<noteq> [] \<and> t \<noteq> ''Books'' \<and> n = strip (sub_trailing_count t))"
    proof (cases "raise_for_status (home s)")
      case (Inl e)
      with n show ?thesis by (simp add: extract_categories_def)
    next
      case (Inr sec)
      show ?thesis
      proof (cases sec)
        case None
        with Inr n show ?thesis by (simp add: extract_categories_def)
      next
        case (Some links)
        with Inr n have "n \<in> set (map c_name (category_links_loop links cats))"
          by (simp add: extract_categories_def)
        from category_links_loop_names[OF this] Inr Some show ?thesis
          by (simp add: nav_texts_def)
      qed
    qed
  qed
  have c: "ds \<noteq> [] \<and> list_all py_isdigit ds \<and> ws \<noteq> [] \<and> list_all py_isspace ws \<and>
    (nm = [] \<or> \<not> py_isspace (last nm)) \<longrightarrow> sub_trailing_count (nm @ ws @ ds) = nm"
    using sub_trailing_count_strips by blast
  from a b c show ?thesis by blast
qed

theorem extract_categories_names_witness:
  "distinct (map c_name ([] :: category list)) \<and>
   distinct (map c_name (extract_categories counted_nav_site [])) \<and>
   sub_trailing_count (''Travel'' @ '' '' @ ''11'') = ''Travel''"
proof -
  have d: "distinct (map c_name ([] :: category list))" by simp
  have "distinct (map c_name (extract_categories counted_nav_site []))"
    using extract_categories_names[of "[]" counted_nav_site] d by blast
  moreover have "sub_trailing_count (''Travel'' @ '' '' @ ''11'') = ''Travel''"
    using extract_categories_names[of "[]" counted_nav_site "''11''" "'' ''" "''Travel''"]
    by (simp add: py_isdigit_def py_isspace_def)
  ultimately show ?thesis using d by blast
qed

subsection \<open>Quotes\<close>












subsection \<open>The frame of an insert phase\<close>

lemma transaction_returns: "fst (transaction t st) = None"
  by (simp add: transaction_def split: prod.splits option.splits)

lemma transaction_rollback: "fst (t st) \<noteq> None \<Longrightarrow> db (snd (transaction t st)) = db st"
  by (auto simp: transaction_def split: prod.splits option.splits)

lemma transaction_commit: "fst (t st) = None \<Longrightarrow> transaction t st = t st"
  by (auto simp: transaction_def split: prod.splits option.splits)

lemma then_call_returns: "fst (f st) = None \<Longrightarrow> then_call f g st = g (snd (f st))"
  by (cases "f st") (simp add: then_call_def)

lemmas insert_defs =
  insert_categories_def insert_publishers_def insert_authors_def insert_books_def
  insert_book_authors_relations_def insert_quotes_def insert_tags_def
  insert_quote_tags_relations_def

lemmas db_eval =
  transaction_def for_each.simps for_each_update.simps then_call_def
  sql_insert_category_def sql_insert_publisher_def sql_insert_tag_def sql_insert_author_def
  sql_insert_book_def sql_insert_book_author_def sql_insert_quote_def sql_insert_quote_tag_def
  insert_name_row_def insert_pair_row_def check_book_values_def check_quote_values_def
  author_values_def author_conflict_def varchar_def pg_text_def decimal_10_2_def round2_def
  pg_integer_def rating_check_def pg_date_def references_def dict_of_rows_def
  pick_category_id_def pick_publisher_id_def insert_one_book_def link_author_def link_book_def
  author_names_def insert_one_quote_def link_tag_def link_quote_def
  choice_def randint_def sample_def randbelow_def rng_next_def random_below_03_def slice_to_def
  insert_categories_try_def insert_publishers_try_def insert_authors_try_def
  insert_books_try_def insert_book_authors_relations_try_def insert_quotes_try_def
  insert_tags_try_def insert_quote_tags_relations_try_def Let_def

lemma floor_numeral_div: "\<lfloor>(numeral a :: rat) / numeral b\<rfloor> = (numeral a :: int) div numeral b"
  using floor_divide_of_int_eq[of "numeral a" "numeral b", where ?'a = rat] by simp

lemmas example_defs = two_books_state_def poetry_book_def costly_book_def empty_db_def fresh_seqs_def

lemma two_books_try:
  "insert_books_try two_books_state =
     (Some DataError,
      two_books_state\<lparr>self_books := [poetry_book\<lparr>db_id := Some 1\<rparr>, costly_book],
        db := (db two_books_state)\<lparr>books_tbl :=
           [(1, \<lparr>v_title = ''A Light in the Attic'', v_price = Finite (5177 / 100),
              v_availability = ''In stock'', v_description = ''A collection of poems.'',
              v_rating = Some 3, v_image_url = ''media/cache/2c/da/2cdad67c.jpg'',
              v_upc = ''a897fe39b1053632'', v_publication_year = None,
              v_category_id = None, v_publisher_id = 1\<rparr>)]\<rparr>,
        seqs := (seqs two_books_state)\<lparr>books_seq := 3\<rparr>,
        rnd := rnd two_books_state\<rparr>)"
  by (simp add: db_eval example_defs floor_numeral_div)

lemma two_books_pipeline:
  "tags_tbl (db (snd (insert_phases two_books_state))) = [(1, ''life'')] \<and>
   books_tbl (db (snd (insert_phases two_books_state))) = []"
  by (simp add: insert_phases_def insert_defs db_eval example_defs floor_numeral_div)

subsection \<open>Category insert\<close>

lemma varchar_short: "length nm \<le> n \<Longrightarrow> varchar n nm = None \<or> varchar n nm = Some nm"
  by (simp add: varchar_def)

lemma insert_name_row_existing:
  "nm \<in> set (map snd tbl) \<Longrightarrow> length nm \<le> limit \<Longrightarrow>
   insert_name_row limit nm i tbl = Inr tbl \<or> insert_name_row limit nm i tbl = Inl DataError"
proof -
  assume m: "nm \<in> set (map snd tbl)" and l: "length nm \<le> limit"
  from varchar_short[OF l] show ?thesis
  proof
    assume "varchar limit nm = None"
    then show ?thesis by (simp add: insert_name_row_def)
  next
    assume "varchar limit nm = Some nm"
    with m show ?thesis by (simp add: insert_name_row_def)
  qed
qed

lemma sql_insert_category_existing:
  "nm \<in> set (map snd (categories_tbl d)) \<Longrightarrow> length nm \<le> 255 \<Longrightarrow>
   fst (snd (sql_insert_category nm (d, q))) = d"
  using insert_name_row_existing[of nm "categories_tbl d" 255 "categories_seq q"]
  by (auto simp: sql_insert_category_def Let_def)

lemma sql_insert_category_existing_ok:
  "nm \<in> set (map snd (categories_tbl d)) \<Longrightarrow> length nm \<le> 255 \<Longrightarrow> CHR 0x00 \<notin> set nm \<Longrightarrow>
   sql_insert_category nm (d, q) = (None, (d, q\<lparr>categories_seq := categories_seq q + 1\<rparr>))"
  by (simp add: sql_insert_category_def insert_name_row_def varchar_def Let_def)

lemma insert_categories_loop_existing:
  "\<forall>c \<in> set cats. c_name c \<in> set (map snd (categories_tbl d)) \<and> length (c_name c) \<le> 255 \<Longrightarrow>
   fst (snd (for_each (\<lambda>category. sql_insert_category (c_name category)) cats (d, q))) = d"
proof (induction cats arbitrary: q)
  case Nil
  then show ?case by simp
next
  case (Cons c cats)
  obtain r d' q' where s: "sql_insert_category (c_name c) (d, q) = (r, (d', q'))"
    by (metis surj_pair)
  from Cons.prems sql_insert_category_existing[of "c_name c" d q] s have d: "d' = d" by simp
  show ?case
  proof (cases r)
    case None
    with s d Cons.IH[of q'] Cons.prems show ?thesis by simp
  next
    case (Some e)
    with s d show ?thesis by simp
  qed
qed

text \<open>
  C9. Inserting a category whose name is already in the table (and fits the column, as
  every name in the table does) leaves the whole database as it was, so the categories
  table and its row count are unchanged; when the name has no NUL character the statement
  raises nothing and only advances the sequence. The phase \<open>insert_categories\<close> run on
  names that are all in the table leaves the categories table and its count unchanged.
\<close>

theorem category_insert_idempotent:
  "(nm \<in> set (map snd (categories_tbl d)) \<and> length nm \<le> 255 \<longrightarrow>
      categories_tbl (fst (snd (sql_insert_category nm (d, q)))) = categories_tbl d \<and>
      length (categories_tbl (fst (snd (sql_insert_category nm (d, q))))) = length (categories_tbl d)) \<and>
   (nm \<in> set (map snd (categories_tbl d)) \<and> length nm \<le> 255 \<and> CHR 0x00 \<notin> set nm \<longrightarrow>
      sql_insert_category nm (d, q) = (None, (d, q\<lparr>categories_seq := categories_seq q + 1\<rparr>))) \<and>
   ((\<forall>c \<in> set (self_categories st).
        c_name c \<in> set (map snd (categories_tbl (db st))) \<and> length (c_name c) \<le> 255) \<longrightarrow>
      categories_tbl (db (snd (insert_categories st))) = categories_tbl (db st) \<and>
      length (categories_tbl (db (snd (insert_categories st)))) = length (categories_tbl (db st)))"
proof -
  have a: "nm \<in> set (map snd (categories_tbl d)) \<and> length nm \<le> 255 \<longrightarrow>
      categories_tbl (fst (snd (sql_insert_category nm (d, q)))) = categories_tbl d \<and>
      length (categories_tbl (fst (snd (sql_insert_category nm (d, q))))) = length (categories_tbl d)"
    by (simp add: sql_insert_category_existing)
  have b: "nm \<in> set (map snd (categories_tbl d)) \<and> length nm \<le> 255 \<and> CHR 0x00 \<notin> set nm \<longrightarrow>
      sql_insert_category nm (d, q) = (None, (d, q\<lparr>categories_seq := categories_seq q + 1\<rparr>))"
    using sql_insert_category_existing_ok by blast
  have c: "(\<forall>c \<in> set (self_categories st).
        c_name c \<in> set (map snd (categories_tbl (db st))) \<and> length (c_name c) \<le> 255) \<longrightarrow>
      categories_tbl (db (snd (insert_categories st))) = categories_tbl (db st) \<and>
      length (categories_tbl (db (snd (insert_categories st)))) = length (categories_tbl (db st))"
  proof
    assume h: "\<forall>c \<in> set (self_categories st).
        c_name c \<in> set (map snd (categories_tbl (db st))) \<and> length (c_name c) \<le> 255"
    have "db (snd (insert_categories st)) = db st"
    proof (cases "fst (insert_categories_try st)")
      case None
      then have "insert_categories st = insert_categories_try st"
        by (simp add: insert_categories_def transaction_commit)
      moreover have "db (snd (insert_categories_try st)) = db st"
        using insert_categories_loop_existing[OF h, of "seqs st"]
        by (cases "for_each (\<lambda>category. sql_insert_category (c_name category))
                     (self_categories st) (db st, seqs st)")
           (auto simp: insert_categories_try_def)
      ultimately show ?thesis by simp
    next
      case (Some e)
      then show ?thesis by (simp add: insert_categories_def transaction_rollback)
    qed
    then show "categories_tbl (db (snd (insert_categories st))) = categories_tbl (db st) \<and>
      length (categories_tbl (db (snd (insert_categories st)))) = length (categories_tbl (db st))"
      by simp
  qed
  from a b c show ?thesis by blast
qed

theorem category_insert_idempotent_witness:
  "sql_insert_category ''Travel'' (db travel_state, seqs travel_state) =
     (None, (db travel_state, (seqs travel_state)\<lparr>categories_seq := 3\<rparr>)) \<and>
   categories_tbl (db (snd (insert_categories travel_state))) = [(1, ''Travel'')]"
proof -
  have h: "''Travel'' \<in> set (map snd (categories_tbl (db travel_state)))"
    "length ''Travel'' \<le> 255" "CHR 0x00 \<notin> set ''Travel''"
    "\<forall>c \<in> set (self_categories travel_state).
        c_name c \<in> set (map snd (categories_tbl (db travel_state))) \<and> length (c_name c) \<le> 255"
    by (simp_all add: travel_state_def empty_db_def)
  have t: "categories_tbl (db travel_state) = [(1, ''Travel'')]"
    "categories_seq (seqs travel_state) + 1 = 3"
    by (simp_all add: travel_state_def empty_db_def fresh_seqs_def)
  from category_insert_idempotent[of "''Travel''" "db travel_state" "seqs travel_state" travel_state] h
  have "sql_insert_category ''Travel'' (db travel_state, seqs travel_state) =
          (None, (db travel_state,
                  (seqs travel_state)\<lparr>categories_seq := categories_seq (seqs travel_state) + 1\<rparr>))"
    "categories_tbl (db (snd (insert_categories travel_state))) = categories_tbl (db travel_state)"
    by blast+
  with t show ?thesis by simp
qed

subsection \<open>Failure of an insert phase\<close>

text \<open>
  C5. Each of the eight insert methods returns to its caller without an exception, and when
  its \<open>try\<close> block raised, the tables after the method are the tables before it. Lines
  953-960 of the pipeline therefore run all eight methods, each on the state the one before
  left.
\<close>

theorem insert_phase_failure:
  "fst (insert_categories st) = None \<and>
   (fst (insert_categories_try st) \<noteq> None \<longrightarrow> db (snd (insert_categories st)) = db st) \<and>
   fst (insert_publishers st) = None \<and>
   (fst (insert_publishers_try st) \<noteq> None \<longrightarrow> db (snd (insert_publishers st)) = db st) \<and>
   fst (insert_authors st) = None \<and>
   (fst (insert_authors_try st) \<noteq> None \<longrightarrow> db (snd (insert_authors st)) = db st) \<and>
   fst (insert_books st) = None \<and>
   (fst (insert_books_try st) \<noteq> None \<longrightarrow> db (snd (insert_books st)) = db st) \<and>
   fst (insert_book_authors_relations st) = None \<and>
   (fst (insert_book_authors_relations_try st) \<noteq> None \<longrightarrow>
      db (snd (insert_book_authors_relations st)) = db st) \<and>
   fst (insert_quotes st) = None \<and>
   (fst (insert_quotes_try st) \<noteq> None \<longrightarrow> db (snd (insert_quotes st)) = db st) \<and>
   fst (insert_tags st) = None \<and>
   (fst (insert_tags_try st) \<noteq> None \<longrightarrow> db (snd (insert_tags st)) = db st) \<and>
   fst (insert_quote_tags_relations st) = None \<and>
   (fst (insert_quote_tags_relations_try st) \<noteq> None \<longrightarrow>
      db (snd (insert_quote_tags_relations st)) = db st) \<and>
   insert_phases st =
     insert_quote_tags_relations (snd (insert_tags (snd (insert_quotes
       (snd (insert_book_authors_relations (snd (insert_books (snd (insert_authors
         (snd (insert_publishers (snd (insert_categories st))))))))))))))"
proof -
  have r: "\<And>t s. fst (transaction t s) = None"
    by (rule transaction_returns)
  have b: "\<And>t s. fst (t s) \<noteq> None \<longrightarrow> db (snd (transaction t s)) = db s"
    by (simp add: transaction_rollback)
  have p: "insert_phases st =
     insert_quote_tags_relations (snd (insert_tags (snd (insert_quotes
       (snd (insert_book_authors_relations (snd (insert_books (snd (insert_authors
         (snd (insert_publishers (snd (insert_categories st))))))))))))))"
    unfolding insert_phases_def insert_defs
    by (simp add: then_call_returns transaction_returns)
  show ?thesis
    unfolding insert_defs using r b p[unfolded insert_defs] by blast
qed

theorem insert_phase_failure_witness:
  "fst (insert_books_try two_books_state) = Some DataError \<and>
   fst (insert_books two_books_state) = None \<and>
   db (snd (insert_books two_books_state)) = db two_books_state \<and>
   tags_tbl (db (snd (insert_phases two_books_state))) = [(1, ''life'')]"
proof -
  have f: "fst (insert_books_try two_books_state) = Some DataError"
    by (simp add: two_books_try)
  then have "fst (insert_books_try two_books_state) \<noteq> None" by simp
  with insert_phase_failure[of two_books_state]
  have "fst (insert_books two_books_state) = None"
    "db (snd (insert_books two_books_state)) = db two_books_state"
    by blast+
  with f two_books_pipeline show ?thesis by simp
qed

subsection \<open>Category of an inserted book\<close>

lemma dict_set_subset: "set (dict_set k v kvs) \<subseteq> insert (k, v) (set kvs)"
  by (induction kvs) (auto split: if_splits)

lemma dict_set_keys: "fst ` set (dict_set k v kvs) = insert k (fst ` set kvs)"
proof (induction kvs)
  case Nil
  then show ?case by simp
next
  case (Cons kv kvs)
  show ?case
  proof (cases "fst kv = k")
    case True
    then show ?thesis by (cases kv) auto
  next
    case False
    with Cons show ?thesis by (cases kv) auto
  qed
qed

lemma dict_fold_subset:
  "set (foldl (\<lambda>dict row. dict_set (snd row) (fst row) dict) acc rows) \<subseteq>
   set acc \<union> (\<lambda>r. (snd r, fst r)) ` set rows"
proof (induction rows arbitrary: acc)
  case Nil
  then show ?case by simp
next
  case (Cons r rows)
  from Cons[of "dict_set (snd r) (fst r) acc"] dict_set_subset[of "snd r" "fst r" acc]
  show ?case by auto
qed

lemma dict_fold_keys:
  "fst ` set (foldl (\<lambda>dict row. dict_set (snd row) (fst row) dict) acc rows) =
   fst ` set acc \<union> snd ` set rows"
proof (induction rows arbitrary: acc)
  case Nil
  then show ?case by simp
next
  case (Cons r rows)
  from Cons[of "dict_set (snd r) (fst r) acc"] dict_set_keys[of "snd r" "fst r" acc]
  show ?case by auto
qed

lemma dict_of_rows_entries: "(nm, i) \<in> set (dict_of_rows rows) \<Longrightarrow> (i, nm) \<in> set rows"
  using dict_fold_subset[of "[]" rows] by (auto simp: dict_of_rows_def)

lemma dict_of_rows_keys: "fst ` set (dict_of_rows rows) = snd ` set rows"
  using dict_fold_keys[of "[]" rows] by (simp add: dict_of_rows_def)

















subsection \<open>Authors of a book\<close>

lemma pool_step_mset:
  assumes "j < length xs"
  shows "mset (xs ! j # butlast (xs[j := last xs])) = mset xs"
proof -
  from assms have ne: "xs \<noteq> []" by auto
  then obtain ys l where xs: "xs = ys @ [l]"
    by (metis rev_exhaust)
  show ?thesis
  proof (cases "j < length ys")
    case True
    then have "butlast (xs[j := last xs]) = ys[j := l]"
      by (simp add: xs list_update_append)
    moreover have "xs ! j = ys ! j"
      using True by (simp add: xs nth_append)
    moreover have "mset (ys[j := l]) = mset ys - {#ys ! j#} + {#l#}"
      using True by (simp add: mset_update)
    ultimately show ?thesis
      using True by (simp add: xs)
  next
    case False
    with assms have j: "j = length ys" by (simp add: xs)
    then have "xs[j := last xs] = xs" by (simp add: xs)
    with j show ?thesis by (simp add: xs)
  qed
qed

lemma sample_pool_props:
  "k \<le> length pool \<Longrightarrow> sample_pool pool k g = (sel, g') \<Longrightarrow>
   length sel = k \<and> mset sel \<subseteq># mset pool"
proof (induction k arbitrary: pool g sel g')
  case 0
  then show ?case by simp
next
  case (Suc k)
  let ?j = "randbelow (length pool) g"
  let ?pool' = "butlast (pool[?j := last pool])"
  from Suc.prems(1) have ne: "0 < length pool" by (cases pool) auto
  then have j: "?j < length pool" by (simp add: randbelow_def)
  obtain rest g1 where r: "sample_pool ?pool' k (rng_next g) = (rest, g1)"
    by (metis surj_pair)
  from Suc.prems have k: "k \<le> length ?pool'" by simp
  from Suc.IH[OF k r] have ih: "length rest = k" "mset rest \<subseteq># mset ?pool'" by auto
  from Suc.prems(2) r have sel: "sel = pool ! ?j # rest"
    by (simp add: Let_def)
  have "mset sel \<subseteq># mset (pool ! ?j # ?pool')"
    using ih(2) by (simp add: sel)
  with pool_step_mset[OF j] ih(1) sel show ?case by simp
qed

lemma count_le_one_distinct: "(\<And>a. count (mset xs) a \<le> 1) \<Longrightarrow> distinct xs"
proof (induction xs)
  case Nil
  then show ?case by simp
next
  case (Cons x xs)
  from Cons.prems[of x] have z: "count (mset xs) x = 0" by simp
  then have x: "x \<notin> set xs" by (simp add: count_eq_zero_iff)
  have "\<And>a. count (mset xs) a \<le> 1"
  proof -
    fix a
    show "count (mset xs) a \<le> 1"
    proof (cases "a = x")
      case True
      with z show ?thesis by (simp only:)
    next
      case False
      with Cons.prems[of a] show ?thesis by simp
    qed
  qed
  from Cons.IH[OF this] x show ?case by simp
qed

lemma sub_mset_distinct:
  assumes "mset sel \<subseteq># mset pool" and "distinct pool"
  shows "distinct sel \<and> set sel \<subseteq> set pool"
proof -
  from assms(1) have c: "\<And>a. count (mset sel) a \<le> count (mset pool) a"
    by (simp add: mset_subset_eq_count)
  from assms(2) have "\<And>a. count (mset pool) a \<le> 1"
    by (simp add: distinct_count_atmost_1)
  with c have "\<And>a. count (mset sel) a \<le> 1"
    using le_trans by blast
  then have "distinct sel"
    by (rule count_le_one_distinct)
  moreover from assms(1) have "set sel \<subseteq> set pool"
    by (metis set_mset_mono set_mset_mset)
  ultimately show ?thesis by simp
qed

lemma randint_range:
  "a \<le> b \<Longrightarrow> \<exists>k. randint a b g = (Inr k, rng_next g) \<and> a \<le> k \<and> k \<le> b"
proof -
  assume ab: "a \<le> b"
  have "randbelow (nat (b - a + 1)) g < nat (b - a + 1)"
    using ab by (simp add: randbelow_def)
  then have "int (randbelow (nat (b - a + 1)) g) \<le> b - a"
    using ab by linarith
  then show ?thesis using ab by (simp add: randint_def)
qed

lemma sample_props:
  assumes "0 \<le> k" "k \<le> int (length pool)" "distinct pool"
  shows "\<exists>sel. sample pool k g = (Inr sel, snd (sample_pool pool (nat k) g)) \<and>
           int (length sel) = k \<and> distinct sel \<and> set sel \<subseteq> set pool"
proof -
  obtain sel g' where s: "sample_pool pool (nat k) g = (sel, g')"
    by (metis surj_pair)
  from assms have "nat k \<le> length pool" by simp
  from sample_pool_props[OF this s] have p: "length sel = nat k" "mset sel \<subseteq># mset pool"
    by auto
  from sub_mset_distinct[OF p(2) assms(3)] p(1) assms s show ?thesis
    by (simp add: sample_def)
qed

lemma pair_linked: "(b, a) \<in> set (map snd (book_authors_tbl d)) \<longleftrightarrow> a \<in> set (author_links b d)"
  by (force simp: author_links_def)

lemma sql_insert_book_author_ok:
  assumes inv: "links_inv d0 (d, q)"
    and b: "b \<in> set (map fst (books_tbl d0))"
    and a: "a \<in> set (map fst (authors_tbl d0))"
  shows "\<exists>d' q'. sql_insert_book_author (b, a) (d, q) = (None, (d', q')) \<and> links_inv d0 (d', q') \<and>
           (\<forall>j. author_links j d' =
                  (if j = b \<and> a \<notin> set (author_links b d) then author_links j d @ [a]
                   else author_links j d))"
proof (cases "a \<in> set (author_links b d)")
  case True
  then have "(b, a) \<in> set (map snd (book_authors_tbl d))"
    using pair_linked[of b a d] by blast
  then have "sql_insert_book_author (b, a) (d, q) =
      (None, (d\<lparr>book_authors_tbl := book_authors_tbl d\<rparr>, q\<lparr>book_authors_seq := book_authors_seq q + 1\<rparr>))"
    by (simp add: sql_insert_book_author_def insert_pair_row_def Let_def)
  moreover have "links_inv d0 (d, q\<lparr>book_authors_seq := book_authors_seq q + 1\<rparr>)"
    using inv by (auto simp: links_inv_def list_all_iff)
  ultimately show ?thesis using True by auto
next
  case False
  then have np: "(b, a) \<notin> set (map snd (book_authors_tbl d))"
    using pair_linked[of b a d] by blast
  from inv have fresh: "book_authors_seq q \<notin> set (map fst (book_authors_tbl d))"
    by (auto simp: links_inv_def list_all_iff)
  from inv b a have fk: "b \<in> set (map fst (books_tbl d))" "a \<in> set (map fst (authors_tbl d))"
    by (simp_all add: links_inv_def)
  let ?d' = "d\<lparr>book_authors_tbl := book_authors_tbl d @ [(book_authors_seq q, (b, a))]\<rparr>"
  let ?q' = "q\<lparr>book_authors_seq := book_authors_seq q + 1\<rparr>"
  have "insert_pair_row (b, a) (book_authors_seq q) (map fst (books_tbl d))
          (map fst (authors_tbl d)) (book_authors_tbl d) =
        Inr (book_authors_tbl d @ [(book_authors_seq q, (b, a))])"
    using np fresh fk by (simp add: insert_pair_row_def)
  then have s: "sql_insert_book_author (b, a) (d, q) = (None, (?d', ?q'))"
    by (simp add: sql_insert_book_author_def Let_def)
  have i: "links_inv d0 (?d', ?q')"
    using inv by (auto simp: links_inv_def list_all_iff)
  have l: "\<forall>j. author_links j ?d' =
                  (if j = b \<and> a \<notin> set (author_links b d) then author_links j d @ [a]
                   else author_links j d)"
    using False by (auto simp: author_links_def)
  from s i l show ?thesis by blast
qed

lemma link_authors_ok:
  assumes b: "b \<in> set (map fst (books_tbl d0))"
  shows "links_inv d0 (d, q) \<Longrightarrow>
         \<forall>nm \<in> set sel. \<exists>a. map_of am nm = Some a \<and> a \<in> set (map fst (authors_tbl d0)) \<Longrightarrow>
         distinct (map (\<lambda>nm. the (map_of am nm)) sel) \<Longrightarrow>
         set (map (\<lambda>nm. the (map_of am nm)) sel) \<inter> set (author_links b d) = {} \<Longrightarrow>
         \<exists>d' q'. for_each (link_author am b) sel (d, q) = (None, (d', q')) \<and> links_inv d0 (d', q') \<and>
           author_links b d' = author_links b d @ map (\<lambda>nm. the (map_of am nm)) sel \<and>
           (\<forall>j. j \<noteq> b \<longrightarrow> author_links j d' = author_links j d)"
proof (induction sel arbitrary: d q)
  case Nil
  then show ?case by simp
next
  case (Cons nm sel)
  from Cons.prems(2) obtain a where a: "map_of am nm = Some a" "a \<in> set (map fst (authors_tbl d0))"
    by auto
  from Cons.prems(4) a have nl: "a \<notin> set (author_links b d)" by auto
  from sql_insert_book_author_ok[OF Cons.prems(1) b a(2)] nl obtain d1 q1
    where s1: "sql_insert_book_author (b, a) (d, q) = (None, (d1, q1))"
      and i1: "links_inv d0 (d1, q1)"
      and l1: "\<forall>j. author_links j d1 = (if j = b then author_links j d @ [a] else author_links j d)"
    by auto
  have step: "link_author am b nm (d, q) = (None, (d1, q1))"
    using a s1 by (simp add: link_author_def)
  have p2: "\<forall>nm \<in> set sel. \<exists>a. map_of am nm = Some a \<and> a \<in> set (map fst (authors_tbl d0))"
    using Cons.prems(2) by simp
  have p3: "distinct (map (\<lambda>nm. the (map_of am nm)) sel)"
    using Cons.prems(3) by simp
  have p4: "set (map (\<lambda>nm. the (map_of am nm)) sel) \<inter> set (author_links b d1) = {}"
    using Cons.prems(3,4) a l1 by auto
  from Cons.IH[OF i1 p2 p3 p4] obtain d' q'
    where r: "for_each (link_author am b) sel (d1, q1) = (None, (d', q'))" "links_inv d0 (d', q')"
      "author_links b d' = author_links b d1 @ map (\<lambda>nm. the (map_of am nm)) sel"
      "\<forall>j. j \<noteq> b \<longrightarrow> author_links j d' = author_links j d1"
    by blast
  from step r l1 a show ?case by simp
qed

lemma dict_set_distinct: "distinct (map fst kvs) \<Longrightarrow> distinct (map fst (dict_set k v kvs))"
proof (induction kvs)
  case Nil
  then show ?case by simp
next
  case (Cons kv kvs)
  then show ?case
    using dict_set_keys[of k v kvs] by (cases kv) auto
qed

lemma dict_fold_distinct:
  "distinct (map fst acc) \<Longrightarrow>
   distinct (map fst (foldl (\<lambda>dict row. dict_set (snd row) (fst row) dict) acc rows))"
  by (induction rows arbitrary: acc) (simp_all add: dict_set_distinct)

lemma dict_of_rows_distinct: "distinct (map fst (dict_of_rows rows))"
  by (simp add: dict_of_rows_def dict_fold_distinct)

lemma dict_of_rows_value:
  "nm \<in> set (map fst (dict_of_rows rows)) \<Longrightarrow>
   \<exists>i. map_of (dict_of_rows rows) nm = Some i \<and> (i, nm) \<in> set rows"
proof -
  assume "nm \<in> set (map fst (dict_of_rows rows))"
  then obtain i where i: "map_of (dict_of_rows rows) nm = Some i"
    by (metis map_of_eq_None_iff not_Some_eq set_map)
  then have "(nm, i) \<in> set (dict_of_rows rows)" by (rule map_of_SomeD)
  with i dict_of_rows_entries show ?thesis by blast
qed

lemma dict_of_rows_inj:
  assumes d: "distinct (map fst rows)"
    and k: "n1 \<in> set (map fst (dict_of_rows rows))" "n2 \<in> set (map fst (dict_of_rows rows))"
    and e: "the (map_of (dict_of_rows rows) n1) = the (map_of (dict_of_rows rows) n2)"
  shows "n1 = n2"
proof -
  from dict_of_rows_value[OF k(1)] obtain i1
    where i1: "map_of (dict_of_rows rows) n1 = Some i1" "(i1, n1) \<in> set rows" by auto
  from dict_of_rows_value[OF k(2)] obtain i2
    where i2: "map_of (dict_of_rows rows) n2 = Some i2" "(i2, n2) \<in> set rows" by auto
  from e i1 i2 have "i1 = i2" by simp
  with d i1(2) i2(2) show ?thesis by (metis eq_key_imp_eq_value)
qed

lemma author_names_ids: "map fst (author_names d) = map fst (authors_tbl d)"
  by (simp add: author_names_def comp_def)

lemma link_book_ok:
  assumes inv: "links_inv d0 (d, q)"
    and ne: "authors_tbl d0 \<noteq> []"
    and ids: "distinct (map fst (authors_tbl d0))"
    and b: "db_id book = Some b" "b \<in> set (map fst (books_tbl d0))" "author_links b d = []"
  shows "\<exists>d' q' g'. link_book (dict_of_rows (author_names d0)) book ((d, q), g) = (None, (d', q'), g') \<and>
           links_inv d0 (d', q') \<and> good_links d0 (author_links b d') \<and>
           (\<forall>j. j \<noteq> b \<longrightarrow> author_links j d' = author_links j d)"
proof -
  let ?am = "dict_of_rows (author_names d0)"
  let ?keys = "map fst ?am"
  let ?n = "length ?am"
  have kd: "distinct ?keys" by (rule dict_of_rows_distinct)
  from ne have "author_names d0 \<noteq> []" by (simp add: author_names_def)
  then have "snd ` set (author_names d0) \<noteq> {}" by simp
  then have "?keys \<noteq> []" using dict_of_rows_keys[of "author_names d0"] by auto
  then have n: "1 \<le> ?n" by (cases ?am) auto
  then have "(1::int) \<le> min 3 (int ?n)" by simp
  from randint_range[OF this, of g] obtain k
    where k: "randint 1 (min 3 (int ?n)) g = (Inr k, rng_next g)" "1 \<le> k" "k \<le> min 3 (int ?n)"
    by auto
  from k have k0: "0 \<le> k" "k \<le> int (length ?keys)" by auto
  from sample_props[OF k0 kd, of "rng_next g"] obtain sel g2
    where sel: "sample ?keys k (rng_next g) = (Inr sel, g2)" "int (length sel) = k"
      "distinct sel" "set sel \<subseteq> set ?keys"
    by blast
  have vals: "\<forall>nm \<in> set sel. \<exists>a. map_of ?am nm = Some a \<and> a \<in> set (map fst (authors_tbl d0))"
  proof
    fix nm assume "nm \<in> set sel"
    with sel(4) have "nm \<in> set ?keys" by auto
    from dict_of_rows_value[OF this] obtain i
      where "map_of ?am nm = Some i" "(i, nm) \<in> set (author_names d0)" by auto
    moreover then have "i \<in> set (map fst (author_names d0))" by force
    ultimately show "\<exists>a. map_of ?am nm = Some a \<and> a \<in> set (map fst (authors_tbl d0))"
      by (simp add: author_names_ids)
  qed
  have "inj_on (\<lambda>nm. the (map_of ?am nm)) (set sel)"
  proof (rule inj_onI)
    fix x y assume "x \<in> set sel" "y \<in> set sel" "the (map_of ?am x) = the (map_of ?am y)"
    with sel(4) ids show "x = y"
      using dict_of_rows_inj[of "author_names d0" x y] by (auto simp: author_names_ids)
  qed
  with sel(3) have dv: "distinct (map (\<lambda>nm. the (map_of ?am nm)) sel)"
    by (simp add: distinct_map)
  have em: "set (map (\<lambda>nm. the (map_of ?am nm)) sel) \<inter> set (author_links b d) = {}"
    using b(3) by simp
  from link_authors_ok[OF b(2) inv vals dv em] obtain d' q'
    where r: "for_each (link_author ?am b) sel (d, q) = (None, (d', q'))" "links_inv d0 (d', q')"
      "author_links b d' = author_links b d @ map (\<lambda>nm. the (map_of ?am nm)) sel"
      "\<forall>j. j \<noteq> b \<longrightarrow> author_links j d' = author_links j d"
    by blast
  have lb: "link_book ?am book ((d, q), g) = (None, (d', q'), g2)"
    using b(1) k(1) sel(1) r(1) by (simp add: link_book_def)
  have ls: "author_links b d' = map (\<lambda>nm. the (map_of ?am nm)) sel"
    using r(3) b(3) by simp
  have "set (map (\<lambda>nm. the (map_of ?am nm)) sel) \<subseteq> set (map fst (authors_tbl d0))"
  proof
    fix a assume "a \<in> set (map (\<lambda>nm. the (map_of ?am nm)) sel)"
    then obtain nm where nm: "nm \<in> set sel" "a = the (map_of ?am nm)" by auto
    from vals nm(1) obtain a' where "map_of ?am nm = Some a'" "a' \<in> set (map fst (authors_tbl d0))"
      by blast
    with nm(2) show "a \<in> set (map fst (authors_tbl d0))" by simp
  qed
  with ls dv sel(2) k(2,3) have "good_links d0 (author_links b d')"
    unfolding good_links_def by auto
  with lb r(2,4) show ?thesis by blast
qed

lemma link_book_skip: "db_id book = None \<Longrightarrow> link_book am book (sv, g) = (None, sv, g)"
  by (simp add: link_book_def)

lemma link_books_ok:
  assumes ne: "authors_tbl d0 \<noteq> []"
    and ids: "distinct (map fst (authors_tbl d0))"
  shows "links_inv d0 (d, q) \<Longrightarrow>
         distinct (List.map_filter db_id bs) \<Longrightarrow>
         \<forall>b \<in> set (List.map_filter db_id bs).
            b \<in> set (map fst (books_tbl d0)) \<and> author_links b d = [] \<Longrightarrow>
         \<exists>d' q' g'. for_each (link_book (dict_of_rows (author_names d0))) bs ((d, q), g) =
                       (None, (d', q'), g') \<and>
           links_inv d0 (d', q') \<and>
           (\<forall>b \<in> set (List.map_filter db_id bs). good_links d0 (author_links b d')) \<and>
           (\<forall>j. j \<notin> set (List.map_filter db_id bs) \<longrightarrow> author_links j d' = author_links j d)"
proof (induction bs arbitrary: d q g)
  case Nil
  then show ?case by (simp add: map_filter_simps)
next
  case (Cons book bs)
  show ?case
  proof (cases "db_id book")
    case None
    then have mf: "List.map_filter db_id (book # bs) = List.map_filter db_id bs"
      by (simp add: map_filter_simps)
    from Cons.IH[OF Cons.prems(1), of g] Cons.prems(2,3) mf obtain d' q' g'
      where "for_each (link_book (dict_of_rows (author_names d0))) bs ((d, q), g) =
                       (None, (d', q'), g')" "links_inv d0 (d', q')"
        "\<forall>b \<in> set (List.map_filter db_id bs). good_links d0 (author_links b d')"
        "\<forall>j. j \<notin> set (List.map_filter db_id bs) \<longrightarrow> author_links j d' = author_links j d"
      by auto
    with None mf show ?thesis by (simp add: link_book_skip)
  next
    case (Some b)
    then have mf: "List.map_filter db_id (book # bs) = b # List.map_filter db_id bs"
      by (simp add: map_filter_simps)
    from Cons.prems(2,3) mf have bb: "b \<in> set (map fst (books_tbl d0))" "author_links b d = []"
      and nb: "b \<notin> set (List.map_filter db_id bs)"
      and dr: "distinct (List.map_filter db_id bs)"
      by auto
    from link_book_ok[OF Cons.prems(1) ne ids Some bb, of g] obtain d1 q1 g1
      where s1: "link_book (dict_of_rows (author_names d0)) book ((d, q), g) = (None, (d1, q1), g1)"
        and i1: "links_inv d0 (d1, q1)" and g1: "good_links d0 (author_links b d1)"
        and o1: "\<forall>j. j \<noteq> b \<longrightarrow> author_links j d1 = author_links j d"
      by blast
    have p3: "\<forall>b \<in> set (List.map_filter db_id bs).
            b \<in> set (map fst (books_tbl d0)) \<and> author_links b d1 = []"
    proof
      fix c assume c: "c \<in> set (List.map_filter db_id bs)"
      with nb have "c \<noteq> b" by auto
      with o1 have "author_links c d1 = author_links c d" by simp
      moreover from c mf have "c \<in> set (List.map_filter db_id (book # bs))" by simp
      with Cons.prems(3) have "c \<in> set (map fst (books_tbl d0)) \<and> author_links c d = []"
        by blast
      ultimately show "c \<in> set (map fst (books_tbl d0)) \<and> author_links c d1 = []" by simp
    qed
    from Cons.IH[OF i1 dr p3, of g1] obtain d' q' g'
      where r: "for_each (link_book (dict_of_rows (author_names d0))) bs ((d1, q1), g1) =
                       (None, (d', q'), g')" "links_inv d0 (d', q')"
        "\<forall>b \<in> set (List.map_filter db_id bs). good_links d0 (author_links b d')"
        "\<forall>j. j \<notin> set (List.map_filter db_id bs) \<longrightarrow> author_links j d' = author_links j d1"
      by blast
    have "for_each (link_book (dict_of_rows (author_names d0))) (book # bs) ((d, q), g) =
            (None, (d', q'), g')"
      using s1 r(1) by simp
    moreover have "\<forall>b \<in> set (List.map_filter db_id (book # bs)). good_links d0 (author_links b d')"
      using mf r(3,4) nb g1 by auto
    moreover have "\<forall>j. j \<notin> set (List.map_filter db_id (book # bs)) \<longrightarrow>
                     author_links j d' = author_links j d"
      using mf r(4) o1 by auto
    ultimately show ?thesis using r(2) by blast
  qed
qed

lemma insert_book_authors_ok:
  assumes "authors_tbl (db st) \<noteq> []" "distinct (map fst (authors_tbl (db st)))"
    "distinct (List.map_filter db_id (self_books st))"
    "\<forall>b \<in> set (List.map_filter db_id (self_books st)).
       b \<in> set (map fst (books_tbl (db st))) \<and> author_links b (db st) = []"
    "list_all (\<lambda>r. fst r < book_authors_seq (seqs st)) (book_authors_tbl (db st))"
  shows "fst (insert_book_authors_relations_try st) = None \<and>
         (\<forall>b \<in> set (List.map_filter db_id (self_books st)).
            good_links (db st) (author_links b (db (snd (insert_book_authors_relations st)))))"
proof -
  have inv: "links_inv (db st) (db st, seqs st)"
    using assms(5) by (simp add: links_inv_def)
  from link_books_ok[OF assms(1,2) inv assms(3,4), of "rnd st"] obtain d' q' g'
    where r: "for_each (link_book (dict_of_rows (author_names (db st)))) (self_books st)
                ((db st, seqs st), rnd st) = (None, (d', q'), g')"
      "\<forall>b \<in> set (List.map_filter db_id (self_books st)). good_links (db st) (author_links b d')"
    by blast
  from r(1) have t: "insert_book_authors_relations_try st =
      (None, st\<lparr>db := d', seqs := q', rnd := g'\<rparr>)"
    by (simp add: insert_book_authors_relations_try_def Let_def)
  then have "insert_book_authors_relations st = (None, st\<lparr>db := d', seqs := q', rnd := g'\<rparr>)"
    by (simp add: insert_book_authors_relations_def transaction_def)
  with t r(2) show ?thesis by simp
qed

text \<open>
  C8. Take a state with at least one author, where the \<open>id\<close>s of the authors are pairwise
  distinct, the books that carry a \<open>db_id\<close> carry pairwise distinct ones, each of them the
  \<open>id\<close> of a row of \<open>books\<close> without author links so far, and the sequence of
  \<open>book_authors\<close> is ahead of the table. Then the \<open>try\<close> block of
  \<open>insert_book_authors_relations\<close> raises nothing, and afterwards every such book is
  linked to at least one and at most min(3, number of author names) authors, pairwise
  distinct, all rows of \<open>authors\<close>. The links are the \<open>id\<close>s of a \<open>random.sample\<close> of
  the names, whose size \<open>random.randint\<close> draws from 1 to min(3, number of names): a
  sample of size k from distinct names has k pairwise distinct members.
\<close>

theorem book_author_links:
  "(authors_tbl (db st) \<noteq> [] \<and> distinct (map fst (authors_tbl (db st))) \<and>
    distinct (List.map_filter db_id (self_books st)) \<and>
    (\<forall>b \<in> set (List.map_filter db_id (self_books st)).
       b \<in> set (map fst (books_tbl (db st))) \<and> author_links b (db st) = []) \<and>
    list_all (\<lambda>r. fst r < book_authors_seq (seqs st)) (book_authors_tbl (db st))
    \<longrightarrow> fst (insert_book_authors_relations_try st) = None \<and>
        (\<forall>b \<in> set (List.map_filter db_id (self_books st)).
           1 \<le> length (author_links b (db (snd (insert_book_authors_relations st)))) \<and>
           length (author_links b (db (snd (insert_book_authors_relations st))))
             \<le> min 3 (length (dict_of_rows (author_names (db st)))) \<and>
           distinct (author_links b (db (snd (insert_book_authors_relations st)))) \<and>
           set (author_links b (db (snd (insert_book_authors_relations st))))
             \<subseteq> set (map fst (authors_tbl (db st))))) \<and>
   (0 \<le> k \<and> k \<le> int (length pool) \<and> distinct pool
    \<longrightarrow> (\<exists>sel g'. sample pool k g = (Inr sel, g') \<and> int (length sel) = k \<and>
           distinct sel \<and> set sel \<subseteq> set pool)) \<and>
   (1 \<le> n \<longrightarrow> (\<exists>m. randint 1 (min 3 n) g = (Inr m, rng_next g) \<and> 1 \<le> m \<and> m \<le> min 3 n))"
proof -
  have a: "authors_tbl (db st) \<noteq> [] \<and> distinct (map fst (authors_tbl (db st))) \<and>
    distinct (List.map_filter db_id (self_books st)) \<and>
    (\<forall>b \<in> set (List.map_filter db_id (self_books st)).
       b \<in> set (map fst (books_tbl (db st))) \<and> author_links b (db st) = []) \<and>
    list_all (\<lambda>r. fst r < book_authors_seq (seqs st)) (book_authors_tbl (db st))
    \<longrightarrow> fst (insert_book_authors_relations_try st) = None \<and>
        (\<forall>b \<in> set (List.map_filter db_id (self_books st)).
           1 \<le> length (author_links b (db (snd (insert_book_authors_relations st)))) \<and>
           length (author_links b (db (snd (insert_book_authors_relations st))))
             \<le> min 3 (length (dict_of_rows (author_names (db st)))) \<and>
           distinct (author_links b (db (snd (insert_book_authors_relations st)))) \<and>
           set (author_links b (db (snd (insert_book_authors_relations st))))
             \<subseteq> set (map fst (authors_tbl (db st))))"
    using insert_book_authors_ok[of st] unfolding good_links_def by blast
  have b: "0 \<le> k \<and> k \<le> int (length pool) \<and> distinct pool
    \<longrightarrow> (\<exists>sel g'. sample pool k g = (Inr sel, g') \<and> int (length sel) = k \<and>
           distinct sel \<and> set sel \<subseteq> set pool)"
    using sample_props[of k pool g] by blast
  have c: "1 \<le> n \<longrightarrow> (\<exists>m. randint 1 (min 3 n) g = (Inr m, rng_next g) \<and> 1 \<le> m \<and> m \<le> min 3 n)"
    using randint_range[of 1 "min 3 n" g] by simp
  from a b c show ?thesis by blast
qed

lemma sample_pool_numeral:
  "sample_pool pool (numeral n) g =
     (let j = randbelow (length pool) g;
          (rest, g') = sample_pool (butlast (pool[j := last pool])) (pred_numeral n) (rng_next g)
      in (pool ! j # rest, g'))"
  using sample_pool.simps(2)[of pool "pred_numeral n" g] by (simp only: numeral_eq_Suc)

lemma linked_eval:
  "author_links 1 (db (snd (insert_book_authors_relations linked_state))) = [2, 1]"
  by (simp add: insert_defs db_eval linked_state_def poetry_book_def empty_db_def fresh_seqs_def
      jane_def poetry_row_def author_links_def sample_pool_numeral)

theorem book_author_links_witness:
  "fst (insert_book_authors_relations_try linked_state) = None \<and>
   author_links 1 (db (snd (insert_book_authors_relations linked_state))) = [2, 1] \<and>
   length (dict_of_rows (author_names (db linked_state))) = 2"
proof -
  have h: "authors_tbl (db linked_state) \<noteq> []"
    "distinct (map fst (authors_tbl (db linked_state)))"
    "distinct (List.map_filter db_id (self_books linked_state))"
    "\<forall>b \<in> set (List.map_filter db_id (self_books linked_state)).
       b \<in> set (map fst (books_tbl (db linked_state))) \<and> author_links b (db linked_state) = []"
    "list_all (\<lambda>r. fst r < book_authors_seq (seqs linked_state)) (book_authors_tbl (db linked_state))"
    by (simp_all add: linked_state_def empty_db_def fresh_seqs_def map_filter_simps
        poetry_book_def author_links_def)
  from book_author_links[of linked_state] h
  have "fst (insert_book_authors_relations_try linked_state) = None" by blast
  moreover have "length (dict_of_rows (author_names (db linked_state))) = 2"
    by (simp add: linked_state_def empty_db_def dict_of_rows_def author_names_def jane_def)
  ultimately show ?thesis using linked_eval by simp
qed

end
